theory Spec2Isabelle
  imports Main
begin

section \<open>JavaScript values used by convert-places-db.js\<close>

text \<open>
  The converter reads SQLite rows and writes LevelDB records. Its values are modelled as
  follows. A column that may be SQL NULL is an \<open>option\<close> (\<open>None\<close> is JavaScript's
  \<open>null\<close>); the result of reading a property that may be absent is an \<open>option\<close> whose
  \<open>None\<close> is \<open>undefined\<close>; where both \<open>null\<close> and \<open>undefined\<close> can reach the same
  place, the three-valued type \<open>jsval\<close> keeps them apart. Numbers are the integers the
  tables hold (type \<open>int\<close>), taken inside the range in which a JavaScript number is
  exact and prints without an exponent. Strings are lists of characters, taken in the
  ASCII range (\<open>toLowerCase\<close> and the class \<open>\W\<close> are modelled for ASCII).
\<close>

datatype 'a jsval = Undefined | Null | Val 'a

datatype error =
    TypeError           \<comment> \<open>a property read, write or call on \<open>undefined\<close> or \<open>null\<close>\<close>
  | RangeError          \<comment> \<open>the call stack is exhausted\<close>
  | ScanError string    \<comment> \<open>the \<open>err\<close> a table scan hands to its completion callback\<close>
  | Hang                \<comment> \<open>a loop that never exits\<close>

definition NUL :: string where
  "NUL = [CHR 0x00]"

definition digitChar :: "nat \<Rightarrow> char" where
  "digitChar d = ''0123456789'' ! d"

fun natToString :: "nat \<Rightarrow> string" where
  "natToString n =
     (if n < 10 then [digitChar n] else natToString (n div 10) @ [digitChar (n mod 10)])"

declare natToString.simps [simp del]

text \<open>\<open>Number.prototype.toString\<close> on an integer: decimal digits, a minus sign first.\<close>

definition toString :: "int \<Rightarrow> string" where
  "toString i = (if i < 0 then CHR ''-'' # natToString (nat (- i)) else natToString (nat i))"

text \<open>String concatenation with \<open>+\<close> prints \<open>null\<close> and \<open>undefined\<close> by name.\<close>

definition nullableToString :: "int option \<Rightarrow> string" where
  "nullableToString v = (case v of None \<Rightarrow> ''null'' | Some i \<Rightarrow> toString i)"

definition nullableString :: "string option \<Rightarrow> string" where
  "nullableString v = (case v of None \<Rightarrow> ''null'' | Some s \<Rightarrow> s)"

definition maybeString :: "string option \<Rightarrow> string" where
  "maybeString v = (case v of None \<Rightarrow> ''undefined'' | Some s \<Rightarrow> s)"

text \<open>
  \<open>s.substring(0, n)\<close>: a negative \<open>n\<close> counts as 0 and an \<open>n\<close> past the end as the
  length, which is what \<open>take\<close> does after \<open>nat\<close>.
\<close>

definition substring0 :: "string \<Rightarrow> int \<Rightarrow> string" where
  "substring0 s n = take (nat n) s"

text \<open>The relation \<open><\<close> of JavaScript on two strings: lexicographic, by code unit.\<close>

fun jsStringLess :: "string \<Rightarrow> string \<Rightarrow> bool" where
  "jsStringLess [] [] = False"
| "jsStringLess [] (y # ys) = True"
| "jsStringLess (x # xs) [] = False"
| "jsStringLess (x # xs) (y # ys) =
     ((of_char x :: nat) < of_char y \<or> (x = y \<and> jsStringLess xs ys))"

section \<open>The lexicographic codec\<close>

definition ZEROES :: string where
  "ZEROES = ''0000000000000000000000000000000''"

definition invertAndPadNumber :: "int \<Rightarrow> int \<Rightarrow> int \<Rightarrow> string" where
  "invertAndPadNumber val mx digits =
     (let unpadded = toString (mx - val)
      in substring0 ZEROES (digits - int (length unpadded)) @ unpadded)"

text \<open>\<open>Date.UTC(2000, 0, 1)\<close> and \<open>Date.UTC(2031, 0, 1)\<close>, in milliseconds.\<close>

definition OLDEST_LEGAL_DATE :: int where
  "OLDEST_LEGAL_DATE = 946684800000"

definition MOST_FUTURE_LEGAL_DATE :: int where
  "MOST_FUTURE_LEGAL_DATE = 1924992000000"

definition DATE_DIGITS :: int where
  "DATE_DIGITS = int (length (toString (MOST_FUTURE_LEGAL_DATE - OLDEST_LEGAL_DATE)))"

definition lexiformTimestamp :: "int \<Rightarrow> string" where
  "lexiformTimestamp val =
     invertAndPadNumber (val - OLDEST_LEGAL_DATE) MOST_FUTURE_LEGAL_DATE DATE_DIGITS"

definition MAX_FRECENCY :: int where
  "MAX_FRECENCY = 1000000"

definition FRECENCY_DIGITS :: int where
  "FRECENCY_DIGITS = 6"

section \<open>Properties of the codec\<close>

lemma DATE_DIGITS_eq: "DATE_DIGITS = 12"
  by (simp add: DATE_DIGITS_def MOST_FUTURE_LEGAL_DATE_def OLDEST_LEGAL_DATE_def
      toString_def natToString.simps digitChar_def)

lemma frecency_zero_encoding:
  "invertAndPadNumber 0 MAX_FRECENCY FRECENCY_DIGITS = ''1000000''"
  by (simp add: invertAndPadNumber_def MAX_FRECENCY_def FRECENCY_DIGITS_def toString_def
      natToString.simps digitChar_def substring0_def ZEROES_def)

lemma frecency_one_encoding:
  "invertAndPadNumber 1 MAX_FRECENCY FRECENCY_DIGITS = ''999999''"
  by (simp add: invertAndPadNumber_def MAX_FRECENCY_def FRECENCY_DIGITS_def toString_def
      natToString.simps digitChar_def substring0_def ZEROES_def)

lemma oldest_date_encoding:
  "lexiformTimestamp OLDEST_LEGAL_DATE = ''1924992000000''"
  by (simp add: lexiformTimestamp_def invertAndPadNumber_def DATE_DIGITS_eq
      MOST_FUTURE_LEGAL_DATE_def toString_def natToString.simps digitChar_def
      substring0_def ZEROES_def)

lemma most_future_date_encoding:
  "lexiformTimestamp MOST_FUTURE_LEGAL_DATE = ''946684800000''"
  by (simp add: lexiformTimestamp_def invertAndPadNumber_def DATE_DIGITS_eq
      MOST_FUTURE_LEGAL_DATE_def OLDEST_LEGAL_DATE_def toString_def natToString.simps
      digitChar_def substring0_def ZEROES_def)

text \<open>
  C3. The codec is meant to map a larger value to a lexicographically smaller string
  of the declared width, for frecencies and for timestamps. With the constants
  of the program it does not: \<open>MAX_FRECENCY - 0\<close> has seven digits where
  \<open>FRECENCY_DIGITS\<close> is six, so frecency 0 is encoded in seven characters and sorts
  before the encoding of the larger frecency 1; and \<open>lexiformTimestamp\<close> inverts against
  the absolute date \<open>MOST_FUTURE_LEGAL_DATE\<close> (thirteen digits) where \<open>DATE_DIGITS\<close> is
  the width of the range (twelve), so the oldest legal date is encoded in thirteen
  characters and sorts before the encoding of the most future one.
\<close>

theorem codec_order_and_width_broken:
  "invertAndPadNumber 0 MAX_FRECENCY FRECENCY_DIGITS = ''1000000''
   \<and> invertAndPadNumber 1 MAX_FRECENCY FRECENCY_DIGITS = ''999999''
   \<and> int (length (invertAndPadNumber 0 MAX_FRECENCY FRECENCY_DIGITS)) \<noteq> FRECENCY_DIGITS
   \<and> \<not> jsStringLess (invertAndPadNumber 1 MAX_FRECENCY FRECENCY_DIGITS)
                      (invertAndPadNumber 0 MAX_FRECENCY FRECENCY_DIGITS)
   \<and> OLDEST_LEGAL_DATE < MOST_FUTURE_LEGAL_DATE
   \<and> lexiformTimestamp OLDEST_LEGAL_DATE = ''1924992000000''
   \<and> lexiformTimestamp MOST_FUTURE_LEGAL_DATE = ''946684800000''
   \<and> int (length (lexiformTimestamp OLDEST_LEGAL_DATE)) \<noteq> DATE_DIGITS
   \<and> \<not> jsStringLess (lexiformTimestamp MOST_FUTURE_LEGAL_DATE)
                      (lexiformTimestamp OLDEST_LEGAL_DATE)"
  unfolding frecency_zero_encoding frecency_one_encoding oldest_date_encoding
    most_future_date_encoding
  by (simp add: DATE_DIGITS_eq FRECENCY_DIGITS_def OLDEST_LEGAL_DATE_def
      MOST_FUTURE_LEGAL_DATE_def)


section \<open>Objects used as dictionaries\<close>

text \<open>
  An object whose property names are strings is an association list in insertion
  order: assigning to an existing property keeps its place, a new property goes last.
  \<open>for (k in obj)\<close> enumerates the names that are canonical array indices first, in
  ascending numeric order, and then the others in insertion order. Property names are
  taken to be different from \<open>__proto__\<close>.
\<close>

type_synonym 'v obj = "(string \<times> 'v) list"

definition objGet :: "'v obj \<Rightarrow> string \<Rightarrow> 'v option" where
  "objGet obj k = map_of obj k"

fun objSet :: "'v obj \<Rightarrow> string \<Rightarrow> 'v \<Rightarrow> 'v obj" where
  "objSet [] k v = [(k, v)]"
| "objSet ((k', v') # rest) k v =
     (if k' = k then (k, v) # rest else (k', v') # objSet rest k v)"

definition isDigit :: "char \<Rightarrow> bool" where
  "isDigit c = (48 \<le> (of_char c :: nat) \<and> (of_char c :: nat) \<le> 57)"

definition parseNat :: "string \<Rightarrow> nat" where
  "parseNat s = foldl (\<lambda>a c. 10 * a + ((of_char c :: nat) - 48)) 0 s"

definition arrayIndex :: "string \<Rightarrow> nat option" where
  "arrayIndex s =
     (if s \<noteq> [] \<and> list_all isDigit s \<and> (s = ''0'' \<or> hd s \<noteq> CHR ''0'')
         \<and> parseNat s < 4294967295
      then Some (parseNat s) else None)"

text \<open>The properties in the order of \<open>for (k in obj)\<close>, each with the value \<open>obj[k]\<close>.\<close>

definition forInEntries :: "'v obj \<Rightarrow> (string \<times> 'v) list" where
  "forInEntries obj =
     map snd (sort_key fst
       (List.map_filter (\<lambda>kv. map_option (\<lambda>n. (n, kv)) (arrayIndex (fst kv))) obj))
     @ filter (\<lambda>kv. arrayIndex (fst kv) = None) obj"

section \<open>Strings\<close>

definition toLowerChar :: "char \<Rightarrow> char" where
  "toLowerChar c =
     (case map_of (zip ''ABCDEFGHIJKLMNOPQRSTUVWXYZ'' ''abcdefghijklmnopqrstuvwxyz'') c of
        None \<Rightarrow> c
      | Some l \<Rightarrow> l)"

definition toLowerCase :: "string \<Rightarrow> string" where
  "toLowerCase s = map toLowerChar s"

text \<open>\<open>s.split(c)\<close> for a one-character separator: the empty string gives one empty piece.\<close>

fun splitOn :: "char \<Rightarrow> string \<Rightarrow> string list" where
  "splitOn c [] = [[]]"
| "splitOn c (x # xs) =
     (if x = c then [] # splitOn c xs
      else (case splitOn c xs of [] \<Rightarrow> [[x]] | w # ws \<Rightarrow> (x # w) # ws))"

definition isWordChar :: "char \<Rightarrow> bool" where
  "isWordChar c =
     (let n = (of_char c :: nat)
      in (48 \<le> n \<and> n \<le> 57) \<or> (65 \<le> n \<and> n \<le> 90) \<or> (97 \<le> n \<and> n \<le> 122) \<or> n = 95)"

text \<open>
  \<open>s.split(/\W+/g)\<close>: the pieces between maximal runs of non-word characters; a run at
  the start or the end leaves an empty piece there.
\<close>

function splitNonWord :: "string \<Rightarrow> string list" where
  "splitNonWord [] = [[]]"
| "splitNonWord (x # xs) =
     (if isWordChar x
      then (case splitNonWord xs of [] \<Rightarrow> [[x]] | w # ws \<Rightarrow> (x # w) # ws)
      else [] # splitNonWord (dropWhile (\<lambda>c. \<not> isWordChar c) xs))"
  by pat_completeness auto
termination
  by (relation "measure length") (auto simp: length_dropWhile_le less_Suc_eq_le)

section \<open>Term extraction\<close>

record parsedUrl =
  hostname :: "string option"
  pathname :: "string option"

text \<open>
  \<open>maybeAddTerm\<close> is the closure of \<open>extractTermsForPlace\<close> over the array \<open>terms\<close>; the
  model passes the array in and returns it. \<open>terms.indexOf(term) !== -1\<close> is membership.
\<close>

definition maybeAddTerm :: "string list \<Rightarrow> string \<Rightarrow> string list" where
  "maybeAddTerm terms term0 =
     (let term = toLowerCase term0
      in if length term < 3 then terms
         else if term = ''the'' \<or> term = ''www'' \<or> term = ''com'' \<or> term = ''org''
                 \<or> term = ''net'' then terms
         else if term \<in> set terms then terms @ [term]
         else terms)"

text \<open>
  \<open>tags.forEach(maybeAddTerm)\<close>: an element that is \<open>null\<close> has no \<open>toLowerCase\<close>.
\<close>

fun addTagTerms :: "string list \<Rightarrow> string option list \<Rightarrow> error + string list" where
  "addTagTerms terms [] = Inr terms"
| "addTagTerms terms (None # tags) = Inl TypeError"
| "addTagTerms terms (Some tag # tags) = addTagTerms (maybeAddTerm terms tag) tags"

text \<open>
  \<open>extractTermsForPlace(url, title, bookmarks, tags)\<close>. The callback over \<open>bookmarks\<close>
  reads \<open>bookmarks.title\<close>, a property the array does not have, and calls \<open>split\<close> on
  it: a \<open>TypeError\<close> as soon as there is one bookmark.
\<close>

definition extractTermsForPlace ::
  "parsedUrl option \<Rightarrow> string option \<Rightarrow> 'b list \<Rightarrow> string option list \<Rightarrow> error + string list"
where
  "extractTermsForPlace url title bookmarks tags =
     (let terms0 = [];
          terms1 =
            (case url of
               None \<Rightarrow> terms0
             | Some u \<Rightarrow>
                 (case hostname u of
                    None \<Rightarrow> terms0
                  | Some h \<Rightarrow>
                      if h = [] then terms0
                      else foldl maybeAddTerm terms0 (butlast (splitOn (CHR ''.'') h))));
          terms2 =
            (case title of
               None \<Rightarrow> terms1
             | Some t \<Rightarrow> if t = [] then terms1 else foldl maybeAddTerm terms1 (splitNonWord t))
      in if bookmarks \<noteq> [] then Inl TypeError else addTagTerms terms2 tags)"

text \<open>
  \<open>lowestPrefixToEmitGivenFrecency(frecency, length)\<close>; an argument left out is
  \<open>undefined\<close> (\<open>None\<close>), and so is then the result below the threshold.
\<close>

definition lowestPrefixToEmitGivenFrecency :: "int \<Rightarrow> nat option \<Rightarrow> nat option" where
  "lowestPrefixToEmitGivenFrecency frecency len = (if frecency > 10000 then Some 1 else len)"

text \<open>\<open>n >= v\<close> where \<open>v\<close> may be \<open>undefined\<close>: the comparison is then false.\<close>

definition geMaybe :: "nat \<Rightarrow> nat option \<Rightarrow> bool" where
  "geMaybe n v = (case v of None \<Rightarrow> False | Some m \<Rightarrow> m \<le> n)"

text \<open>
  The loop \<open>while (magic.length >= lowestPrefix) { emitAwesome(magic, term); magic =
  magic.slice(0, -1); }\<close>, collecting the values of \<open>magic\<close> it emits. With a bound of 0
  it would never exit, so the result is an \<open>option\<close>.
\<close>

partial_function (option) prefixLoop ::
  "nat option \<Rightarrow> string \<Rightarrow> string list \<Rightarrow> string list option"
where
  "prefixLoop lowestPrefix magic emitted =
     (if geMaybe (length magic) lowestPrefix
      then prefixLoop lowestPrefix (butlast magic) (emitted @ [magic])
      else Some emitted)"

declare prefixLoop.simps [code]

lemma maybeAddTerm_Nil: "maybeAddTerm [] t = []"
  by (simp add: maybeAddTerm_def Let_def)

lemma foldl_maybeAddTerm_Nil: "foldl maybeAddTerm [] ts = []"
  by (induction ts) (simp_all add: maybeAddTerm_Nil)

lemma addTagTerms_Nil:
  "addTagTerms [] tags = (if None \<in> set tags then Inl TypeError else Inr [])"
proof (induction tags)
  case Nil
  show ?case by simp
next
  case (Cons t tags)
  then show ?case by (cases t) (simp_all add: maybeAddTerm_Nil)
qed

lemma extractTermsForPlace_eq:
  "extractTermsForPlace url title bookmarks tags =
     (if bookmarks = [] then (if None \<in> set tags then Inl TypeError else Inr [])
      else Inl TypeError)"
  by (simp add: extractTermsForPlace_def foldl_maybeAddTerm_Nil addTagTerms_Nil
      split: option.splits)


section \<open>Rows, records and the conversion context\<close>

text \<open>
  A table scan (\<open>ctx.sdb.each(query, row, complete)\<close>) delivers the rows of its query in
  order to the row callback and then calls the completion callback once, with an error
  or without. The rows are those of the query as written in the source: the visits
  arrive by ascending \<open>visit_date\<close>, the places by \<open>url\<close>.
\<close>

datatype 'r scan = Scan (scanRows: "'r list") (scanErr: "string option")

record annoEntry =
  a_mimeType :: "string option"
  a_content :: "string option"
  a_flags :: "int option"
  a_expiration :: "int option"
  a_type :: "int option"
  a_dateAdded :: "int option"
  a_lastModified :: "int option"

type_synonym annos = "annoEntry obj"

record annoAttribRow =
  aa_id :: int
  aa_name :: string

text \<open>
  A row of \<open>moz_annos\<close> or of \<open>moz_items_annos\<close>: the owner is the column \<open>place_id\<close>
  of the first table and \<open>item_id\<close> of the second; the seven columns the source copies
  into the annotation value are held as one \<open>annoEntry\<close>.
\<close>

record annoRow =
  ar_owner :: int
  ar_anno_attribute_id :: int
  ar_entry :: annoEntry

record inputRow =
  ih_place_id :: int
  ih_input :: string
  ih_use_count :: "int option"

record keywordRow =
  kw_id :: int
  kw_name :: string

record favicon =
  f_url :: "string option"
  f_data :: "string option"
  f_mimeType :: "string option"
  f_expiration :: "int option"

record faviconRow =
  fr_id :: int
  fr_icon :: favicon

record visitRow =
  v_id :: int
  v_from_visit :: int
  v_place_id :: int
  v_visit_date :: int
  v_visit_type :: "int option"
  v_session :: "int option"

record visitInfo =
  vi_key :: string
  vi_prevKey :: "string option"
  vi_type :: "int option"
  vi_session :: "int option"

record rootRow =
  r_root_name :: string
  r_folder_id :: int

record bookmarkRow =
  b_id :: int
  b_fk :: "int option"
  b_parent :: "int option"
  b_position :: "int option"
  b_title :: "string option"
  b_keyword :: "int option"
  b_dateAdded :: "int option"
  b_lastModified :: "int option"
  b_guid :: "string option"

text \<open>
  The object \<open>hierInfo\<close> built for each bookmark row. \<open>h_kids\<close> holds references to other
  such objects: the objects live in a list in the order of their creation, and a
  reference is an index into it. \<open>h_url\<close> is the property \<open>url\<close>, absent (\<open>None\<close>) until
  the place pass assigns it. The object never has a property \<open>type\<close>.
\<close>

record hierInfo =
  h_id :: int
  h_placeId :: "int option"
  h_parentId :: "int option"
  h_position :: "int option"
  h_title :: "string option"
  h_keyword :: "string jsval"
  h_dateAdded :: "int option"
  h_lastModified :: "int option"
  h_guid :: "string option"
  h_annotations :: "annos option"
  h_tags :: "string option list option"
  h_kids :: "nat list option"
  h_url :: "string option"

record placeRow =
  p_id :: int
  p_url :: string
  p_title :: "string option"
  p_rev_host :: string
  p_visit_count :: "int option"
  p_typed :: "int option"
  p_frecency :: int
  p_last_visit_date :: "int option"
  p_guid :: "string option"
  p_favicon_id :: "int option"

subsection \<open>Values written to the store\<close>

record bookmarkValue =
  bv_url :: "string option"
  bv_title :: "string option"
  bv_tags :: "string option list option"
  bv_keyword :: "string jsval"
  bv_type :: "int jsval"
  bv_position :: "int option"
  bv_dateAdded :: "int option"
  bv_lastModified :: "int option"
  bv_guid :: "string option"

record visitValue =
  vv_url :: string
  vv_prevKey :: "string option"
  vv_type :: "int option"
  vv_session :: "int option"

record infoValue =
  iv_title :: "string option"
  iv_visitCount :: "int option"
  iv_typed :: "int option"
  iv_frecency :: int
  iv_lastVisitDate :: "int option"
  iv_guid :: "string option"
  iv_favicon :: "favicon jsval"
  iv_annotations :: "annos option"

datatype dbValue =
    BookmarkRecord bookmarkValue
  | ParentRef "int option"          \<comment> \<open>\<open>{ parentId: ... }\<close>\<close>
  | UrlValue "string option"        \<comment> \<open>a url, or \<open>undefined\<close>\<close>
  | NoValue                         \<comment> \<open>\<open>null\<close>\<close>
  | VisitRecord visitValue
  | InfoRecord infoValue
  | UseCount "int option"           \<comment> \<open>\<open>{ useCount: ... }\<close>\<close>

type_synonym put = "string \<times> dbValue"

text \<open>
  The context object. Its dictionaries keyed by a row id are maps; the key of
  \<open>bookmarksByPlaceId\<close> and \<open>tagsByPlaceId\<close> is a bookmark's \<open>fk\<close>, which may be \<open>null\<close>.
  \<open>heap\<close> holds the \<open>hierInfo\<close> objects, and \<open>ldb\<close> the batches handed to the store so
  far, in the order of their \<open>write\<close>. The functions below are modelled on a context
  whose earlier phases have run, as in the chain of \<open>kickoffConversions\<close>.
\<close>

record ctxt =
  annoAttribsById :: "int \<rightharpoonup> string"
  annotationsByPlaceId :: "int \<rightharpoonup> annos"
  annotationsByBookmarkId :: "int \<rightharpoonup> annos"
  inputHistoryByPlaceId :: "int \<rightharpoonup> (int option) obj"
  keywordsById :: "int \<rightharpoonup> string"
  faviconsById :: "int \<rightharpoonup> favicon"
  visitsByPlaceId :: "int \<rightharpoonup> visitInfo list"
  bookmarkRoots :: "int obj"
  bookmarkHierarchy :: "nat obj"
  bookmarksByPlaceId :: "int option \<rightharpoonup> nat list"
  tagsByPlaceId :: "int option \<rightharpoonup> string option list"
  heap :: "hierInfo list"
  ldb :: "put list list"

definition emptyContext :: ctxt where
  "emptyContext =
     \<lparr> annoAttribsById = Map.empty, annotationsByPlaceId = Map.empty,
       annotationsByBookmarkId = Map.empty, inputHistoryByPlaceId = Map.empty,
       keywordsById = Map.empty, faviconsById = Map.empty, visitsByPlaceId = Map.empty,
       bookmarkRoots = [], bookmarkHierarchy = [], bookmarksByPlaceId = Map.empty,
       tagsByPlaceId = Map.empty, heap = [], ldb = [] \<rparr>"

text \<open>The completion callback: reject with the scan's error, or resolve.\<close>

definition complete :: "'r scan \<Rightarrow> ctxt \<Rightarrow> error + ctxt" where
  "complete sc ctx = (case scanErr sc of Some e \<Rightarrow> Inl (ScanError e) | None \<Rightarrow> Inr ctx)"

section \<open>The relational join index\<close>

definition slurpAnnotationAttribs :: "ctxt \<Rightarrow> annoAttribRow scan \<Rightarrow> error + ctxt" where
  "slurpAnnotationAttribs ctx sc =
     complete sc
       (ctx\<lparr>annoAttribsById :=
          foldl (\<lambda>m row. m(aa_id row \<mapsto> aa_name row)) Map.empty (scanRows sc)\<rparr>)"

text \<open>
  The name of an annotation is \<open>annoAttribsById[row.anno_attribute_id]\<close>; used as a
  property name, a missing one reads \<open>undefined\<close>.
\<close>

definition annoName :: "ctxt \<Rightarrow> annoRow \<Rightarrow> string" where
  "annoName ctx row = maybeString (annoAttribsById ctx (ar_anno_attribute_id row))"

definition slurpAnnotationsRow :: "ctxt \<Rightarrow> annoRow \<Rightarrow> ctxt" where
  "slurpAnnotationsRow ctx row =
     (let annos = (case annotationsByPlaceId ctx (ar_owner row) of
                     None \<Rightarrow> []
                   | Some a \<Rightarrow> a)
      in ctx\<lparr>annotationsByPlaceId :=
               (annotationsByPlaceId ctx)
                 (ar_owner row \<mapsto> objSet annos (annoName ctx row) (ar_entry row))\<rparr>)"

definition slurpAnnotations :: "ctxt \<Rightarrow> annoRow scan \<Rightarrow> error + ctxt" where
  "slurpAnnotations ctx sc =
     complete sc
       (foldl slurpAnnotationsRow (ctx\<lparr>annotationsByPlaceId := Map.empty\<rparr>) (scanRows sc))"

text \<open>
  The row callback of \<open>slurpBookmarkAnnotations\<close> looks the item id up in
  \<open>ctx.annotationsByPlaceId\<close>. When a place has that id, \<open>annos\<close> is the place's object
  and the entry is stored in it; otherwise a fresh object is stored under the item id in
  \<open>annotationsByBookmarkId\<close>, in the place of any object already there.
\<close>

definition slurpBookmarkAnnotationsRow :: "ctxt \<Rightarrow> annoRow \<Rightarrow> ctxt" where
  "slurpBookmarkAnnotationsRow ctx row =
     (case annotationsByPlaceId ctx (ar_owner row) of
        Some annos \<Rightarrow>
          ctx\<lparr>annotationsByPlaceId :=
                (annotationsByPlaceId ctx)
                  (ar_owner row \<mapsto> objSet annos (annoName ctx row) (ar_entry row))\<rparr>
      | None \<Rightarrow>
          ctx\<lparr>annotationsByBookmarkId :=
                (annotationsByBookmarkId ctx)
                  (ar_owner row \<mapsto> objSet [] (annoName ctx row) (ar_entry row))\<rparr>)"

definition slurpBookmarkAnnotations :: "ctxt \<Rightarrow> annoRow scan \<Rightarrow> error + ctxt" where
  "slurpBookmarkAnnotations ctx sc =
     complete sc
       (foldl slurpBookmarkAnnotationsRow (ctx\<lparr>annotationsByBookmarkId := Map.empty\<rparr>)
          (scanRows sc))"

definition slurpInputHistoryRow :: "ctxt \<Rightarrow> inputRow \<Rightarrow> ctxt" where
  "slurpInputHistoryRow ctx row =
     (let inputs = (case inputHistoryByPlaceId ctx (ih_place_id row) of
                      None \<Rightarrow> []
                    | Some i \<Rightarrow> i)
      in ctx\<lparr>inputHistoryByPlaceId :=
               (inputHistoryByPlaceId ctx)
                 (ih_place_id row \<mapsto> objSet inputs (ih_input row) (ih_use_count row))\<rparr>)"

definition slurpInputHistory :: "ctxt \<Rightarrow> inputRow scan \<Rightarrow> error + ctxt" where
  "slurpInputHistory ctx sc =
     complete sc
       (foldl slurpInputHistoryRow (ctx\<lparr>inputHistoryByPlaceId := Map.empty\<rparr>) (scanRows sc))"

definition slurpKeywords :: "ctxt \<Rightarrow> keywordRow scan \<Rightarrow> error + ctxt" where
  "slurpKeywords ctx sc =
     complete sc
       (ctx\<lparr>keywordsById :=
          foldl (\<lambda>m row. m(kw_id row \<mapsto> kw_name row)) Map.empty (scanRows sc)\<rparr>)"

definition slurpFavicons :: "ctxt \<Rightarrow> faviconRow scan \<Rightarrow> error + ctxt" where
  "slurpFavicons ctx sc =
     complete sc
       (ctx\<lparr>faviconsById :=
          foldl (\<lambda>m row. m(fr_id row \<mapsto> fr_icon row)) Map.empty (scanRows sc)\<rparr>)"

definition slurpBookmarkRoots :: "ctxt \<Rightarrow> rootRow scan \<Rightarrow> error + ctxt" where
  "slurpBookmarkRoots ctx sc =
     complete sc
       (ctx\<lparr>bookmarkRoots :=
          foldl (\<lambda>roots row. objSet roots (r_root_name row) (r_folder_id row)) []
            (scanRows sc)\<rparr>)"

section \<open>The visit chain builder\<close>

text \<open>
  The locals of \<open>slurpHistoryVisits\<close>: the dictionary \<open>keyByVisitId\<close>, \<open>lastTS\<close>,
  \<open>nextUnique\<close>. The row callback builds \<open>visitInfo\<close> and reads
  \<open>visitsByPlaceId[row.place_id]\<close> into \<open>visits\<close>, and uses neither: nothing is ever
  stored in \<open>visitsByPlaceId\<close>. \<open>visitRowInfo\<close> is the \<open>visitInfo\<close> the callback builds
  and drops.
\<close>

record visitLocals =
  keyByVisitId :: "int \<rightharpoonup> string"
  lastTS :: int
  nextUnique :: int

definition visitKey :: "visitLocals \<Rightarrow> visitRow \<Rightarrow> string" where
  "visitKey loc row =
     (if lastTS loc = v_visit_date row
      then lexiformTimestamp (v_visit_date row) @ ''-'' @ toString (nextUnique loc)
      else lexiformTimestamp (v_visit_date row))"

definition slurpHistoryVisitsRow :: "visitLocals \<Rightarrow> visitRow \<Rightarrow> visitLocals" where
  "slurpHistoryVisitsRow loc row =
     (let key = visitKey loc row;
          loc1 = (if lastTS loc = v_visit_date row
                  then loc\<lparr>nextUnique := nextUnique loc + 1\<rparr>
                  else loc\<lparr>lastTS := v_visit_date row, nextUnique := 0\<rparr>)
      in loc1\<lparr>keyByVisitId := (keyByVisitId loc1)(v_id row \<mapsto> key)\<rparr>)"

definition visitRowInfo :: "visitLocals \<Rightarrow> visitRow \<Rightarrow> visitInfo" where
  "visitRowInfo loc row =
     \<lparr> vi_key = visitKey loc row,
       vi_prevKey = keyByVisitId (slurpHistoryVisitsRow loc row) (v_from_visit row),
       vi_type = v_visit_type row,
       vi_session = v_session row \<rparr>"

definition visitLocals0 :: visitLocals where
  "visitLocals0 = \<lparr> keyByVisitId = Map.empty, lastTS = 0, nextUnique = 0 \<rparr>"

definition slurpHistoryVisits :: "ctxt \<Rightarrow> visitRow scan \<Rightarrow> error + ctxt" where
  "slurpHistoryVisits ctx sc =
     (let loc = foldl slurpHistoryVisitsRow visitLocals0 (scanRows sc)
      in complete sc (ctx\<lparr>visitsByPlaceId := Map.empty\<rparr>))"


section \<open>The bookmark hierarchy builder\<close>

definition makeHierInfo :: "ctxt \<Rightarrow> bookmarkRow \<Rightarrow> hierInfo" where
  "makeHierInfo ctx row =
     \<lparr> h_id = b_id row,
       h_placeId = b_fk row,
       h_parentId = b_parent row,
       h_position = b_position row,
       h_title = b_title row,
       h_keyword =
         (case b_keyword row of
            None \<Rightarrow> Null
          | Some k \<Rightarrow>
              if k = 0 then Null
              else (case keywordsById ctx k of None \<Rightarrow> Undefined | Some name \<Rightarrow> Val name)),
       h_dateAdded = b_dateAdded row,
       h_lastModified = b_lastModified row,
       h_guid = b_guid row,
       h_annotations = annotationsByBookmarkId ctx (b_id row),
       h_tags = None,
       h_kids = None,
       h_url = None \<rparr>"

text \<open>
  The locals of \<open>slurpBookmarks\<close>: \<open>flatBookmarks\<close> is the list of all objects created,
  that is the heap itself, and \<open>bookmarksById\<close> maps an id to the object created last
  for it. The row callback pushes the object onto a list \<open>linkedBookmarks\<close> that it
  makes afresh when \<open>bookmarksByPlaceId\<close> has none for the place, and never stores:
  \<open>bookmarksByPlaceId\<close> stays empty.
\<close>

record bookmarkLocals =
  bl_heap :: "hierInfo list"
  bookmarksById :: "int \<rightharpoonup> nat"
  bl_hierarchy :: "nat obj"
  bl_tags :: "int option \<rightharpoonup> string option list"

definition slurpBookmarksRow :: "ctxt \<Rightarrow> bookmarkLocals \<Rightarrow> bookmarkRow \<Rightarrow> bookmarkLocals" where
  "slurpBookmarksRow ctx loc row =
     loc\<lparr> bl_heap := bl_heap loc @ [makeHierInfo ctx row],
          bookmarksById := (bookmarksById loc)(b_id row \<mapsto> length (bl_heap loc)) \<rparr>"

text \<open>
  Linking one root, \<open>rootId\<close> being \<open>ctx.bookmarkRoots[rootName]\<close>:
  \<open>bookmarkHierarchy[rootName] = rootBookmark; rootBookmark.title = rootName\<close>, a
  \<open>TypeError\<close> when no bookmark has the root's folder id.
\<close>

definition linkRoot :: "bookmarkLocals \<Rightarrow> string \<times> int \<Rightarrow> error + bookmarkLocals" where
  "linkRoot loc root =
     (case bookmarksById loc (snd root) of
        None \<Rightarrow> Inl TypeError
      | Some r \<Rightarrow>
          Inr (loc\<lparr> bl_hierarchy := objSet (bl_hierarchy loc) (fst root) r,
                    bl_heap := (bl_heap loc)[r := (bl_heap loc ! r)\<lparr>h_title := Some (fst root)\<rparr>] \<rparr>))"

fun linkRoots :: "bookmarkLocals \<Rightarrow> (string \<times> int) list \<Rightarrow> error + bookmarkLocals" where
  "linkRoots loc [] = Inr loc"
| "linkRoots loc (root # roots) =
     (case linkRoot loc root of
        Inl e \<Rightarrow> Inl e
      | Inr loc' \<Rightarrow> linkRoots loc' roots)"

text \<open>
  \<open>hierInfo.parentId === TAG_ROOT_ID\<close>: \<open>parentId\<close> is a number or \<open>null\<close>,
  \<open>TAG_ROOT_ID\<close> a number or \<open>undefined\<close>, so the two are equal only as numbers.
\<close>

definition isTagRoot :: "int option \<Rightarrow> int option \<Rightarrow> bool" where
  "isTagRoot parentId tagRootId =
     (case parentId of
        None \<Rightarrow> False
      | Some p \<Rightarrow> (case tagRootId of None \<Rightarrow> False | Some t \<Rightarrow> p = t))"

text \<open>
  The callback of \<open>flatBookmarks.forEach\<close>, for the object at index \<open>i\<close>. Under the
  tags root it pushes \<open>parentHierInfo.title\<close>, the title of the parent, onto the tag
  list of the object's own place id.
\<close>

definition linkChild :: "int option \<Rightarrow> bookmarkLocals \<Rightarrow> nat \<Rightarrow> error + bookmarkLocals" where
  "linkChild tagRootId loc i =
     (let hierInfo = bl_heap loc ! i;
          parentHierInfo = Option.bind (h_parentId hierInfo) (bookmarksById loc)
      in if isTagRoot (h_parentId hierInfo) tagRootId then
           (case parentHierInfo of
              None \<Rightarrow> Inl TypeError
            | Some p \<Rightarrow>
                let tags = (case bl_tags loc (h_placeId hierInfo) of None \<Rightarrow> [] | Some ts \<Rightarrow> ts)
                in Inr (loc\<lparr>bl_tags :=
                          (bl_tags loc)(h_placeId hierInfo \<mapsto> tags @ [h_title (bl_heap loc ! p)])\<rparr>))
         else
           (case parentHierInfo of
              None \<Rightarrow> Inr loc
            | Some p \<Rightarrow>
                let kids = (case h_kids (bl_heap loc ! p) of None \<Rightarrow> [] | Some ks \<Rightarrow> ks)
                in Inr (loc\<lparr>bl_heap :=
                          (bl_heap loc)[p := (bl_heap loc ! p)\<lparr>h_kids := Some (kids @ [i])\<rparr>]\<rparr>)))"

fun linkChildren :: "int option \<Rightarrow> bookmarkLocals \<Rightarrow> nat list \<Rightarrow> error + bookmarkLocals" where
  "linkChildren tagRootId loc [] = Inr loc"
| "linkChildren tagRootId loc (i # is) =
     (case linkChild tagRootId loc i of
        Inl e \<Rightarrow> Inl e
      | Inr loc' \<Rightarrow> linkChildren tagRootId loc' is)"

definition bookmarkLocals0 :: bookmarkLocals where
  "bookmarkLocals0 =
     \<lparr> bl_heap = [], bookmarksById = Map.empty, bl_hierarchy = [], bl_tags = Map.empty \<rparr>"

definition slurpBookmarksLocals ::
  "ctxt \<Rightarrow> bookmarkRow list \<Rightarrow> error + bookmarkLocals"
where
  "slurpBookmarksLocals ctx rows =
     (let loc = foldl (slurpBookmarksRow ctx) bookmarkLocals0 rows
      in case linkRoots loc (forInEntries (bookmarkRoots ctx)) of
           Inl e \<Rightarrow> Inl e
         | Inr loc' \<Rightarrow>
             linkChildren (objGet (bookmarkRoots ctx) ''tags'') loc' [0 ..< length (bl_heap loc')])"

definition slurpBookmarks :: "ctxt \<Rightarrow> bookmarkRow scan \<Rightarrow> error + ctxt" where
  "slurpBookmarks ctx sc =
     (case scanErr sc of
        Some e \<Rightarrow> Inl (ScanError e)
      | None \<Rightarrow>
          (case slurpBookmarksLocals ctx (scanRows sc) of
             Inl e \<Rightarrow> Inl e
           | Inr loc \<Rightarrow>
               Inr (ctx\<lparr> bookmarkHierarchy := bl_hierarchy loc,
                         bookmarksByPlaceId := Map.empty,
                         tagsByPlaceId := bl_tags loc,
                         heap := bl_heap loc \<rparr>)))"

section \<open>Writing the bookmarks\<close>

definition bookmarkKey :: "nat \<Rightarrow> hierInfo \<Rightarrow> string" where
  "bookmarkKey depth bookmark =
     ''B'' @ NUL @ toString (int depth) @ NUL @ nullableToString (h_parentId bookmark)
       @ NUL @ toString (h_id bookmark)"

definition reverseBookmarkKey :: "hierInfo \<Rightarrow> string" where
  "reverseBookmarkKey bookmark =
     ''b'' @ NUL @ maybeString (h_url bookmark) @ NUL @ toString (h_id bookmark)"

definition bookmarkRecord :: "hierInfo \<Rightarrow> bookmarkValue" where
  "bookmarkRecord bookmark =
     \<lparr> bv_url = h_url bookmark,
       bv_title = h_title bookmark,
       bv_tags = h_tags bookmark,
       bv_keyword = h_keyword bookmark,
       bv_type = Undefined,
       bv_position = h_position bookmark,
       bv_dateAdded = h_dateAdded bookmark,
       bv_lastModified = h_lastModified bookmark,
       bv_guid = h_guid bookmark \<rparr>"

text \<open>What \<open>traverseBookmark(depth, bookmark)\<close> puts for the bookmark itself.\<close>

definition bookmarkPuts :: "nat \<Rightarrow> hierInfo \<Rightarrow> put list" where
  "bookmarkPuts depth bookmark =
     [ (bookmarkKey depth bookmark, BookmarkRecord (bookmarkRecord bookmark)),
       (reverseBookmarkKey bookmark, ParentRef (h_parentId bookmark)) ]
     @ (case h_tags bookmark of
          None \<Rightarrow> []
        | Some tags \<Rightarrow>
            map (\<lambda>tag. (''T'' @ NUL @ nullableString tag @ NUL @ maybeString (h_url bookmark),
                        NoValue)) tags)
     @ (case h_keyword bookmark of
          Val keyword \<Rightarrow>
            if keyword \<noteq> [] then [(''K'' @ NUL @ keyword, UrlValue (h_url bookmark))] else []
        | _ \<Rightarrow> [])"

text \<open>
  \<open>traverseBookmark\<close> calls itself for every kid, so its nesting is as deep as the
  tree; a parent chain that runs into a cycle nests without end and exhausts the stack.
  \<open>limit\<close> is the number of nested calls the stack has room for.
\<close>

fun traverseBookmark :: "nat \<Rightarrow> hierInfo list \<Rightarrow> nat \<Rightarrow> nat \<Rightarrow> error + put list"
  and traverseKids :: "nat \<Rightarrow> hierInfo list \<Rightarrow> nat \<Rightarrow> nat list \<Rightarrow> error + put list"
where
  "traverseBookmark 0 hp depth i = Inl RangeError"
| "traverseBookmark (Suc limit) hp depth i =
     (if i < length hp then
        (case traverseKids limit hp (depth + 1)
                (case h_kids (hp ! i) of None \<Rightarrow> [] | Some kids \<Rightarrow> kids) of
           Inl e \<Rightarrow> Inl e
         | Inr puts \<Rightarrow> Inr (bookmarkPuts depth (hp ! i) @ puts))
      else Inl TypeError)"
| "traverseKids limit hp depth [] = Inr []"
| "traverseKids limit hp depth (k # kids) =
     (case traverseBookmark limit hp depth k of
        Inl e \<Rightarrow> Inl e
      | Inr puts \<Rightarrow>
          (case traverseKids limit hp depth kids of
             Inl e \<Rightarrow> Inl e
           | Inr puts' \<Rightarrow> Inr (puts @ puts')))"

text \<open>The loop of \<open>writeBookmarks\<close> over the roots, which skips the root \<open>tags\<close>.\<close>

fun traverseRoots :: "nat \<Rightarrow> hierInfo list \<Rightarrow> (string \<times> nat) list \<Rightarrow> error + put list" where
  "traverseRoots limit hp [] = Inr []"
| "traverseRoots limit hp (root # roots) =
     (if fst root = ''tags'' then traverseRoots limit hp roots
      else
        (case traverseBookmark limit hp 0 (snd root) of
           Inl e \<Rightarrow> Inl e
         | Inr puts \<Rightarrow>
             (case traverseRoots limit hp roots of
                Inl e \<Rightarrow> Inl e
              | Inr puts' \<Rightarrow> Inr (puts @ puts'))))"

definition writeBookmarksBatch :: "nat \<Rightarrow> ctxt \<Rightarrow> error + put list" where
  "writeBookmarksBatch limit ctx =
     traverseRoots limit (heap ctx) (forInEntries (bookmarkHierarchy ctx))"

text \<open>
  \<open>writeBookmarks\<close> hands its batch to the store and then ends in
  \<open>return deferred.promise()\<close>, a call of the promise object (\<open>deferred.promise\<close>, as the
  other phases return it, is not a function): it always ends in an error, after the
  write when the traversal returned. The result is the context it leaves and that error.
\<close>

definition writeBookmarks :: "nat \<Rightarrow> ctxt \<Rightarrow> ctxt \<times> error" where
  "writeBookmarks limit ctx =
     (case writeBookmarksBatch limit ctx of
        Inl e \<Rightarrow> (ctx, e)
      | Inr batch \<Rightarrow> (ctx\<lparr>ldb := ldb ctx @ [batch]\<rparr>, TypeError))"


section \<open>The record transformer\<close>

definition BATCH_LIMIT :: nat where
  "BATCH_LIMIT = 1000"

text \<open>
  The names of the properties that every object inherits from \<open>Object.prototype\<close>. Each
  reads as a truthy value on any object that does not define it itself.
\<close>

definition objectPrototypeNames :: "string set" where
  "objectPrototypeNames =
     {''constructor'', ''hasOwnProperty'', ''isPrototypeOf'', ''propertyIsEnumerable'',
      ''toLocaleString'', ''toString'', ''valueOf'', ''__proto__'', ''__defineGetter__'',
      ''__defineSetter__'', ''__lookupGetter__'', ''__lookupSetter__''}"

text \<open>
  The locals of \<open>transformPlaceRecords\<close>: the batch being filled, \<open>batchCount\<close>, and the
  reversed hosts at which \<open>faviconPersistedForReverseHost[reversedHost]\<close> reads truthy:
  those the object maps to \<open>true\<close> and, from the start, the inherited property names.
\<close>

record transformLocals =
  batch :: "put list"
  batchCount :: nat
  faviconPersistedForReverseHost :: "string set"

definition infoRecord :: "ctxt \<Rightarrow> transformLocals \<Rightarrow> placeRow \<Rightarrow> infoValue" where
  "infoRecord ctx loc row =
     \<lparr> iv_title = p_title row,
       iv_visitCount = p_visit_count row,
       iv_typed = p_typed row,
       iv_frecency = p_frecency row,
       iv_lastVisitDate = p_last_visit_date row,
       iv_guid = p_guid row,
       iv_favicon =
         (if p_rev_host row \<notin> faviconPersistedForReverseHost loc
          then (case Option.bind (p_favicon_id row) (faviconsById ctx) of
                  None \<Rightarrow> Undefined
                | Some icon \<Rightarrow> Val icon)
          else Null),
       iv_annotations = annotationsByPlaceId ctx (p_id row) \<rparr>"

text \<open>The fix-up of the bookmarks linked to the place: each gets the url and the tags.\<close>

definition fixUpBookmarks :: "ctxt \<Rightarrow> placeRow \<Rightarrow> nat list \<Rightarrow> hierInfo list" where
  "fixUpBookmarks ctx row linkedBookmarks =
     foldl (\<lambda>hp i. hp[i := (hp ! i)\<lparr> h_url := Some (p_url row),
                                     h_tags := tagsByPlaceId ctx (Some (p_id row)) \<rparr>])
       (heap ctx) linkedBookmarks"

text \<open>The two records put for one visit of the place.\<close>

definition visitPuts :: "placeRow \<Rightarrow> visitInfo \<Rightarrow> put list" where
  "visitPuts row visit =
     [ (''H'' @ NUL @ vi_key visit,
        VisitRecord \<lparr> vv_url = p_url row, vv_prevKey = vi_prevKey visit,
                      vv_type = vi_type visit, vv_session = vi_session visit \<rparr>),
       (''h'' @ NUL @ p_rev_host row @ NUL @ p_url row, NoValue) ]"

definition emitAwesome :: "placeRow \<Rightarrow> parsedUrl \<Rightarrow> string \<Rightarrow> string \<Rightarrow> put" where
  "emitAwesome row parsedUrl magic term =
     (''A'' @ NUL @ magic @ NUL
        @ invertAndPadNumber (p_frecency row) MAX_FRECENCY FRECENCY_DIGITS @ NUL
        @ term @ NUL @ p_rev_host row @ NUL @ nullableString (pathname parsedUrl),
      UrlValue (Some (p_url row)))"

text \<open>
  The callback of \<open>terms.forEach\<close>. It calls \<open>lowestPrefixToEmitGivenFrecency\<close> with the
  frecency alone, so the parameter \<open>length\<close> is \<open>undefined\<close>. \<open>None\<close> is a loop that does
  not exit.
\<close>

definition emitTerm :: "placeRow \<Rightarrow> parsedUrl \<Rightarrow> string \<Rightarrow> put list option" where
  "emitTerm row parsedUrl term =
     map_option (map (\<lambda>magic. emitAwesome row parsedUrl magic term))
       (prefixLoop (lowestPrefixToEmitGivenFrecency (p_frecency row) None) term [])"

fun termPuts :: "placeRow \<Rightarrow> parsedUrl \<Rightarrow> string list \<Rightarrow> error + put list" where
  "termPuts row parsedUrl [] = Inr []"
| "termPuts row parsedUrl (term # terms) =
     (case emitTerm row parsedUrl term of
        None \<Rightarrow> Inl Hang
      | Some puts \<Rightarrow>
          (case termPuts row parsedUrl terms of
             Inl e \<Rightarrow> Inl e
           | Inr puts' \<Rightarrow> Inr (puts @ puts')))"

text \<open>
  The loop over the input history of the place. \<open>inputs.hasOwnProperty\<close> is the method
  of every object unless the user has typed \<open>hasOwnProperty\<close>, which makes it the
  property holding that entry and the call a \<open>TypeError\<close>.
\<close>

fun inputPuts ::
  "placeRow \<Rightarrow> parsedUrl \<Rightarrow> (int option) obj \<Rightarrow> (string \<times> int option) list \<Rightarrow> error + put list"
where
  "inputPuts row parsedUrl inputs [] = Inr []"
| "inputPuts row parsedUrl inputs (entry # entries) =
     (let typed = fst entry;
          first = [ (''a'' @ NUL @ typed @ NUL @ p_url row, UseCount (snd entry)),
                    emitAwesome row parsedUrl typed typed ]
      in if 2 \<le> length typed \<and> objGet inputs ''hasOwnProperty'' \<noteq> None then Inl TypeError
         else
           (case inputPuts row parsedUrl inputs entries of
              Inl e \<Rightarrow> Inl e
            | Inr puts \<Rightarrow>
                Inr (first
                     @ (if 2 \<le> length typed \<and> objGet inputs (butlast typed) = None
                        then [emitAwesome row parsedUrl (butlast typed) typed] else [])
                     @ puts)))"

text \<open>
  The row callback of \<open>transformPlaceRecords\<close>. \<open>parse\<close> is \<open>$url.parse\<close> of the
  \<open>url\<close> module of the platform. The test \<open>batchCount++ >= BATCH_LIMIT\<close> compares the
  count before it is incremented.
\<close>

definition transformRow ::
  "(string \<Rightarrow> parsedUrl) \<Rightarrow> ctxt \<times> transformLocals \<Rightarrow> placeRow \<Rightarrow> error + ctxt \<times> transformLocals"
where
  "transformRow parse st row =
     (let ctx = fst st; loc = snd st;
          infoPut = (''I'' @ NUL @ p_rev_host row @ NUL @ p_url row,
                     InfoRecord (infoRecord ctx loc row));
          persisted = insert (p_rev_host row) (faviconPersistedForReverseHost loc);
          linkedBookmarks = (case bookmarksByPlaceId ctx (Some (p_id row)) of
                               None \<Rightarrow> []
                             | Some bs \<Rightarrow> bs);
          hp = fixUpBookmarks ctx row linkedBookmarks;
          visits = (case visitsByPlaceId ctx (p_id row) of None \<Rightarrow> [] | Some vs \<Rightarrow> vs);
          tags = (case tagsByPlaceId ctx (Some (p_id row)) of None \<Rightarrow> [] | Some ts \<Rightarrow> ts);
          parsedUrl = parse (p_url row)
      in case extractTermsForPlace (Some parsedUrl) (p_title row) linkedBookmarks tags of
           Inl e \<Rightarrow> Inl e
         | Inr terms \<Rightarrow>
             (case termPuts row parsedUrl terms of
                Inl e \<Rightarrow> Inl e
              | Inr awesome \<Rightarrow>
                  (case inputPuts row parsedUrl
                          (case inputHistoryByPlaceId ctx (p_id row) of
                             None \<Rightarrow> [] | Some inputs \<Rightarrow> inputs)
                          (case inputHistoryByPlaceId ctx (p_id row) of
                             None \<Rightarrow> [] | Some inputs \<Rightarrow> forInEntries inputs) of
                     Inl e \<Rightarrow> Inl e
                   | Inr typed \<Rightarrow>
                       (let batch' = batch loc @ [infoPut] @ concat (map (visitPuts row) visits)
                                       @ awesome @ typed
                        in if BATCH_LIMIT \<le> batchCount loc
                           then Inr (ctx\<lparr>heap := hp, ldb := ldb ctx @ [batch']\<rparr>,
                                     \<lparr> batch = [], batchCount = 0,
                                       faviconPersistedForReverseHost = persisted \<rparr>)
                           else Inr (ctx\<lparr>heap := hp\<rparr>,
                                     \<lparr> batch = batch', batchCount = batchCount loc + 1,
                                       faviconPersistedForReverseHost = persisted \<rparr>)))))"

fun transformRows ::
  "(string \<Rightarrow> parsedUrl) \<Rightarrow> ctxt \<times> transformLocals \<Rightarrow> placeRow list \<Rightarrow> error + ctxt \<times> transformLocals"
where
  "transformRows parse st [] = Inr st"
| "transformRows parse st (row # rows) =
     (case transformRow parse st row of
        Inl e \<Rightarrow> Inl e
      | Inr st' \<Rightarrow> transformRows parse st' rows)"

definition transformLocals0 :: transformLocals where
  "transformLocals0 =
     \<lparr> batch = [], batchCount = 0, faviconPersistedForReverseHost = objectPrototypeNames \<rparr>"

text \<open>
  \<open>transformPlaceRecords\<close>: the rows, and then the completion callback, which writes
  the batch left over and rejects or resolves.
\<close>

definition transformPlaceRecords ::
  "(string \<Rightarrow> parsedUrl) \<Rightarrow> ctxt \<Rightarrow> placeRow scan \<Rightarrow> error + ctxt"
where
  "transformPlaceRecords parse ctx sc =
     (case transformRows parse (ctx, transformLocals0) (scanRows sc) of
        Inl e \<Rightarrow> Inl e
      | Inr st \<Rightarrow> complete sc ((fst st)\<lparr>ldb := ldb (fst st) @ [batch (snd st)]\<rparr>))"

section \<open>The chain of phases\<close>

record snapshot =
  moz_anno_attributes :: "annoAttribRow scan"
  moz_annos :: "annoRow scan"
  moz_items_annos :: "annoRow scan"
  moz_inputhistory :: "inputRow scan"
  moz_keywords :: "keywordRow scan"
  moz_favicons :: "faviconRow scan"
  moz_historyvisits :: "visitRow scan"
  moz_bookmarks_roots :: "rootRow scan"
  moz_bookmarks :: "bookmarkRow scan"
  moz_places :: "placeRow scan"

text \<open>\<open>promise.then(f)\<close>: \<open>f\<close> runs when the promise is resolved, not when it is rejected.\<close>

definition andThen :: "error + 'a \<Rightarrow> ('a \<Rightarrow> error + 'b) \<Rightarrow> error + 'b" where
  "andThen r f = (case r of Inl e \<Rightarrow> Inl e | Inr x \<Rightarrow> f x)"

text \<open>
  \<open>kickoffConversions\<close>: the promise chain, from a context whose dictionaries are all
  unset. \<open>writeBookmarks\<close> is not a link of the chain. The result is the context when
  \<open>allDone\<close> runs, or the error handed to \<open>fatalError\<close>.
\<close>

definition kickoffConversions :: "(string \<Rightarrow> parsedUrl) \<Rightarrow> snapshot \<Rightarrow> error + ctxt" where
  "kickoffConversions parse sdb =
     andThen (slurpAnnotationAttribs emptyContext (moz_anno_attributes sdb)) (\<lambda>ctx.
     andThen (slurpAnnotations ctx (moz_annos sdb)) (\<lambda>ctx.
     andThen (slurpBookmarkAnnotations ctx (moz_items_annos sdb)) (\<lambda>ctx.
     andThen (slurpInputHistory ctx (moz_inputhistory sdb)) (\<lambda>ctx.
     andThen (slurpKeywords ctx (moz_keywords sdb)) (\<lambda>ctx.
     andThen (slurpFavicons ctx (moz_favicons sdb)) (\<lambda>ctx.
     andThen (slurpHistoryVisits ctx (moz_historyvisits sdb)) (\<lambda>ctx.
     andThen (slurpBookmarkRoots ctx (moz_bookmarks_roots sdb)) (\<lambda>ctx.
     andThen (slurpBookmarks ctx (moz_bookmarks sdb)) (\<lambda>ctx.
     transformPlaceRecords parse ctx (moz_places sdb))))))))))"


section \<open>Properties of term extraction and of the search indexer\<close>

text \<open>
  C5, as amended. \<open>extractTermsForPlace\<close> never returns a term: the test before
  \<open>terms.push\<close> holds only for a term that is already in the list, and the list starts
  empty. For every input the result is the empty list, or a \<open>TypeError\<close> when there is
  a linked bookmark or a tag that is \<open>null\<close>. No occurrence of a term is added, so no
  duplicate either.
\<close>

theorem extractTermsForPlace_adds_nothing:
  "extractTermsForPlace url title bookmarks tags =
     (if bookmarks = [] then (if None \<in> set tags then Inl TypeError else Inr [])
      else Inl TypeError)"
  by (rule extractTermsForPlace_eq)

text \<open>
  C5, as stated, fails: no input makes \<open>extractTermsForPlace\<close> return a list with a
  repeated term. On the host \<open>example.org\<close>, the title \<open>Example Site\<close> and the tag
  \<open>example\<close>, whose tokens repeat the term \<open>example\<close>, the result is empty.
\<close>

theorem extractTermsForPlace_no_duplicates:
  "\<not> (\<exists>url title (bookmarks :: nat list) tags terms.
         extractTermsForPlace url title bookmarks tags = Inr terms \<and> \<not> distinct terms)
   \<and> extractTermsForPlace (Some \<lparr>hostname = Some ''example.org'', pathname = Some ''/a''\<rparr>)
        (Some ''Example Site'') ([] :: nat list) [Some ''example''] = Inr []"
  by (auto simp: extractTermsForPlace_eq split: if_splits)




section \<open>Properties of the record transformer\<close>

text \<open>
  C7. The history-by-site record of a visit has the key \<open>h\<close>, reversed host, url,
  separated by NUL: the key of the visit is not part of it, so the key that the
  namespace is documented to have, with the inverted-padded timestamp between host and
  url, is not written, and all visits of a place share one \<open>h\<close> key.
\<close>

theorem history_by_site_key_lacks_timestamp:
  "map fst (visitPuts row visit)
     = [''H'' @ NUL @ vi_key visit, ''h'' @ NUL @ p_rev_host row @ NUL @ p_url row]
   \<and> ''h'' @ NUL @ p_rev_host row @ NUL @ vi_key visit @ NUL @ p_url row
       \<notin> set (map fst (visitPuts row visit))"
proof -
  have "length (''h'' @ NUL @ p_rev_host row @ NUL @ vi_key visit @ NUL @ p_url row)
        \<noteq> length (''h'' @ NUL @ p_rev_host row @ NUL @ p_url row)"
    by (simp add: NUL_def)
  then have "''h'' @ NUL @ p_rev_host row @ NUL @ vi_key visit @ NUL @ p_url row
        \<noteq> ''h'' @ NUL @ p_rev_host row @ NUL @ p_url row"
    by metis
  then show ?thesis by (simp add: visitPuts_def)
qed

section \<open>The conversion of a snapshot with one place and two visits\<close>

definition noRows :: "'r scan" where
  "noRows = Scan [] None"

definition examplePlace :: placeRow where
  "examplePlace =
     \<lparr> p_id = 1, p_url = ''https://example.org/a'', p_title = Some ''Example Site'',
       p_rev_host = ''gro.elpmaxe.'', p_visit_count = Some 3, p_typed = Some 0,
       p_frecency = 50000, p_last_visit_date = Some 1370000060000, p_guid = None,
       p_favicon_id = None \<rparr>"



definition firstVisit :: visitRow where
  "firstVisit =
     \<lparr> v_id = 1, v_from_visit = 0, v_place_id = 1, v_visit_date = 1370000000000,
       v_visit_type = Some 1, v_session = Some 0 \<rparr>"

definition secondVisit :: visitRow where
  "secondVisit =
     \<lparr> v_id = 2, v_from_visit = 1, v_place_id = 1, v_visit_date = 1370000060000,
       v_visit_type = Some 1, v_session = Some 0 \<rparr>"

definition twoVisitSnapshot :: snapshot where
  "twoVisitSnapshot =
     \<lparr> moz_anno_attributes = noRows, moz_annos = noRows, moz_items_annos = noRows,
       moz_inputhistory = noRows, moz_keywords = noRows, moz_favicons = noRows,
       moz_historyvisits = Scan [firstVisit, secondVisit] None,
       moz_bookmarks_roots = noRows, moz_bookmarks = noRows,
       moz_places = Scan [examplePlace] None \<rparr>"

lemmas phase_defs =
  kickoffConversions_def andThen_def slurpAnnotationAttribs_def slurpAnnotations_def
  slurpBookmarkAnnotations_def slurpInputHistory_def slurpKeywords_def slurpFavicons_def
  slurpHistoryVisits_def slurpBookmarkRoots_def slurpBookmarks_def slurpBookmarksLocals_def
  transformPlaceRecords_def complete_def emptyContext_def noRows_def

text \<open>
  C2. One place, two visits at \<open>t1 < t2\<close>, the second coming from the first, no
  bookmarks. The row callback of the visit scan computes for the second visit a
  \<open>prevKey\<close> that is the key of the first, and stores neither visit; the store then
  receives a single batch holding the \<open>I\<close> record of the place and nothing else: no
  \<open>H\<close> record and no \<open>h\<close> record.
\<close>

theorem two_visits_leave_no_history_record:
  "(case kickoffConversions parse twoVisitSnapshot of
      Inl e \<Rightarrow> None
    | Inr ctx \<Rightarrow> Some (map (map fst) (ldb ctx)))
     = Some [[''I'' @ NUL @ ''gro.elpmaxe.'' @ NUL @ ''https://example.org/a'']]
   \<and> vi_prevKey (visitRowInfo (slurpHistoryVisitsRow visitLocals0 firstVisit) secondVisit)
     = Some (vi_key (visitRowInfo visitLocals0 firstVisit))
   \<and> v_visit_date firstVisit < v_visit_date secondVisit"
proof -
  have "(case kickoffConversions parse twoVisitSnapshot of
           Inl e \<Rightarrow> None
         | Inr ctx \<Rightarrow> Some (map (map fst) (ldb ctx)))
        = Some [[''I'' @ NUL @ ''gro.elpmaxe.'' @ NUL @ ''https://example.org/a'']]"
    by (simp add: phase_defs twoVisitSnapshot_def bookmarkLocals0_def forInEntries_def
        List.map_filter_def transformRow_def transformLocals0_def extractTermsForPlace_eq
        fixUpBookmarks_def examplePlace_def BATCH_LIMIT_def Let_def)
  moreover have "vi_prevKey (visitRowInfo (slurpHistoryVisitsRow visitLocals0 firstVisit)
                    secondVisit)
        = Some (vi_key (visitRowInfo visitLocals0 firstVisit))"
    by (simp add: visitRowInfo_def slurpHistoryVisitsRow_def visitLocals0_def
        firstVisit_def secondVisit_def visitKey_def Let_def)
  moreover have "v_visit_date firstVisit < v_visit_date secondVisit"
    by (simp add: firstVisit_def secondVisit_def)
  ultimately show ?thesis by blast
qed

section \<open>The search index of a conversion\<close>




section \<open>Properties of the annotation index\<close>

definition placeAnnotation :: annoEntry where
  "placeAnnotation =
     \<lparr> a_mimeType = None, a_content = Some ''a note on the page'', a_flags = Some 0,
       a_expiration = Some 4, a_type = Some 3, a_dateAdded = None, a_lastModified = None \<rparr>"

definition itemAnnotation :: annoEntry where
  "itemAnnotation =
     \<lparr> a_mimeType = None, a_content = Some ''a note on the bookmark'', a_flags = Some 0,
       a_expiration = Some 4, a_type = Some 3, a_dateAdded = None, a_lastModified = None \<rparr>"

text \<open>
  A context after \<open>slurpAnnotations\<close>: the place with id 5 has one annotation. The
  bookmark with id 5 has one annotation too, of another attribute.
\<close>

definition annotatedContext :: ctxt where
  "annotatedContext =
     emptyContext\<lparr> annoAttribsById := [1 \<mapsto> ''page/note'', 2 \<mapsto> ''bookmark/note''],
                    annotationsByPlaceId := [5 \<mapsto> [(''page/note'', placeAnnotation)]] \<rparr>"

definition itemAnnotationRow :: annoRow where
  "itemAnnotationRow =
     \<lparr> ar_owner = 5, ar_anno_attribute_id = 2, ar_entry = itemAnnotation \<rparr>"

text \<open>
  C10. The bookmark-annotation pass is meant to fill \<open>annotationsByBookmarkId\<close> and to
  leave \<open>annotationsByPlaceId\<close> alone. Its row callback looks the item id up in
  \<open>annotationsByPlaceId\<close>: when a place has the id of the bookmark, the annotation of
  the bookmark is added to the annotations of that place, and the bookmark gets none.
\<close>

theorem bookmark_annotation_stored_on_place:
  "(case slurpBookmarkAnnotations annotatedContext (Scan [itemAnnotationRow] None) of
      Inl e \<Rightarrow> None
    | Inr ctx \<Rightarrow> Some (annotationsByPlaceId ctx 5, annotationsByBookmarkId ctx 5))
     = Some (Some [(''page/note'', placeAnnotation), (''bookmark/note'', itemAnnotation)], None)
   \<and> annotationsByPlaceId annotatedContext 5 = Some [(''page/note'', placeAnnotation)]"
  by (simp add: slurpBookmarkAnnotations_def slurpBookmarkAnnotationsRow_def complete_def
      annotatedContext_def itemAnnotationRow_def emptyContext_def annoName_def
      maybeString_def)


section \<open>Properties of the batched writer\<close>

text \<open>
  A context without linked bookmarks, visits, tags and input history: a place row then
  puts its \<open>I\<close> record and nothing else.
\<close>

definition plainContext :: "ctxt \<Rightarrow> bool" where
  "plainContext ctx =
     (bookmarksByPlaceId ctx = Map.empty \<and> visitsByPlaceId ctx = Map.empty
      \<and> tagsByPlaceId ctx = Map.empty \<and> inputHistoryByPlaceId ctx = Map.empty)"

definition infoPut :: "ctxt \<Rightarrow> transformLocals \<Rightarrow> placeRow \<Rightarrow> put" where
  "infoPut ctx loc row =
     (''I'' @ NUL @ p_rev_host row @ NUL @ p_url row, InfoRecord (infoRecord ctx loc row))"

lemma transformRow_plain:
  assumes "plainContext ctx"
  shows "transformRow parse (ctx, loc) row =
           Inr (if BATCH_LIMIT \<le> batchCount loc
                then (ctx\<lparr>ldb := ldb ctx @ [batch loc @ [infoPut ctx loc row]]\<rparr>,
                      \<lparr> batch = [], batchCount = 0,
                        faviconPersistedForReverseHost =
                          insert (p_rev_host row) (faviconPersistedForReverseHost loc) \<rparr>)
                else (ctx,
                      \<lparr> batch = batch loc @ [infoPut ctx loc row],
                        batchCount = batchCount loc + 1,
                        faviconPersistedForReverseHost =
                          insert (p_rev_host row) (faviconPersistedForReverseHost loc) \<rparr>))"
  using assms
  by (simp add: transformRow_def plainContext_def extractTermsForPlace_eq fixUpBookmarks_def
      infoPut_def infoRecord_def Let_def)

lemma plainContext_ldb: "plainContext (ctx\<lparr>ldb := l\<rparr>) = plainContext ctx"
  by (simp add: plainContext_def)

lemma transformRows_append:
  "transformRows parse st (rows @ rows') =
     (case transformRows parse st rows of
        Inl e \<Rightarrow> Inl e
      | Inr st' \<Rightarrow> transformRows parse st' rows')"
  by (induction rows arbitrary: st) (simp_all split: sum.splits)

lemma transformRows_below_limit:
  assumes "plainContext ctx" and "batchCount loc + length rows \<le> BATCH_LIMIT"
  shows "\<exists>loc'. transformRows parse (ctx, loc) rows = Inr (ctx, loc')
           \<and> length (batch loc') = length (batch loc) + length rows
           \<and> batchCount loc' = batchCount loc + length rows"
  using assms
proof (induction rows arbitrary: loc)
  case Nil
  then show ?case by simp
next
  case (Cons row rows)
  let ?loc1 = "\<lparr> batch = batch loc @ [infoPut ctx loc row],
                 batchCount = batchCount loc + 1,
                 faviconPersistedForReverseHost =
                   insert (p_rev_host row) (faviconPersistedForReverseHost loc) \<rparr>"
  from Cons.prems have step: "transformRow parse (ctx, loc) row = Inr (ctx, ?loc1)"
    by (simp add: transformRow_plain)
  from Cons.prems have "batchCount ?loc1 + length rows \<le> BATCH_LIMIT" by simp
  from Cons.IH [OF Cons.prems(1) this] obtain loc' where
    "transformRows parse (ctx, ?loc1) rows = Inr (ctx, loc')"
    "length (batch loc') = length (batch ?loc1) + length rows"
    "batchCount loc' = batchCount ?loc1 + length rows"
    by blast
  with step show ?case by simp
qed

lemma plainContext_empty: "plainContext emptyContext"
  by (simp add: plainContext_def emptyContext_def)

lemma thousand_rows_one_write:
  assumes "length rows = 1000"
  shows "(case transformPlaceRecords parse emptyContext (Scan rows None) of
            Inl e \<Rightarrow> None
          | Inr ctx \<Rightarrow> Some (map length (ldb ctx))) = Some [1000]"
proof -
  have "batchCount transformLocals0 + length rows \<le> BATCH_LIMIT"
    using assms by (simp add: transformLocals0_def BATCH_LIMIT_def)
  from transformRows_below_limit [OF plainContext_empty this, of parse]
  obtain loc' where
    "transformRows parse (emptyContext, transformLocals0) rows = Inr (emptyContext, loc')"
    "length (batch loc') = length (batch transformLocals0) + length rows"
    by blast
  then show ?thesis
    using assms
    by (simp add: transformPlaceRecords_def complete_def transformLocals0_def emptyContext_def)
qed

lemma thousand_and_one_rows:
  assumes "length rows = 1000"
  shows "(case transformPlaceRecords parse emptyContext (Scan (rows @ [row]) None) of
            Inl e \<Rightarrow> None
          | Inr ctx \<Rightarrow> Some (map length (ldb ctx))) = Some [1001, 0]"
proof -
  have "batchCount transformLocals0 + length rows \<le> BATCH_LIMIT"
    using assms by (simp add: transformLocals0_def BATCH_LIMIT_def)
  from transformRows_below_limit [OF plainContext_empty this, of parse]
  obtain loc' where l:
    "transformRows parse (emptyContext, transformLocals0) rows = Inr (emptyContext, loc')"
    "length (batch loc') = length (batch transformLocals0) + length rows"
    "batchCount loc' = batchCount transformLocals0 + length rows"
    by blast
  then have full: "BATCH_LIMIT \<le> batchCount loc'" and len: "length (batch loc') = 1000"
    using assms by (simp_all add: transformLocals0_def BATCH_LIMIT_def)
  have "transformRows parse (emptyContext, transformLocals0) (rows @ [row])
        = Inr (emptyContext\<lparr>ldb := ldb emptyContext @ [batch loc' @ [infoPut emptyContext loc' row]]\<rparr>,
               \<lparr> batch = [], batchCount = 0,
                 faviconPersistedForReverseHost =
                   insert (p_rev_host row) (faviconPersistedForReverseHost loc') \<rparr>)"
    using full l(1)
    by (simp add: transformRows_append transformRow_plain [OF plainContext_empty])
  then show ?thesis
    using len
    by (simp add: transformPlaceRecords_def complete_def emptyContext_def)
qed

text \<open>
  C8. The batch is meant to be written when the rows processed since the last write
  reach \<open>BATCH_LIMIT\<close>, that is 1000. The test compares the count before incrementing
  it, so the write comes with row 1001: a scan of exactly 1000 places ends with the
  completion callback's write as the only one, holding all 1000 rows, and in a scan of
  1001 places the write in the row callback holds 1001 rows (while logging 1000) and
  the leftover batch is empty.
\<close>

theorem batch_written_after_1001_rows:
  "(case transformPlaceRecords parse emptyContext (Scan (replicate 1000 examplePlace) None) of
      Inl e \<Rightarrow> None
    | Inr ctx \<Rightarrow> Some (map length (ldb ctx))) = Some [1000]
   \<and> (case transformPlaceRecords parse emptyContext
            (Scan (replicate 1000 examplePlace @ [examplePlace]) None) of
        Inl e \<Rightarrow> None
      | Inr ctx \<Rightarrow> Some (map length (ldb ctx))) = Some [1001, 0]"
  using thousand_rows_one_write [of "replicate 1000 examplePlace" parse]
    thousand_and_one_rows [of "replicate 1000 examplePlace" parse examplePlace]
  by simp



section \<open>Properties of the bookmark hierarchy builder\<close>

lemma nth_update_field:
  assumes "\<And>x. f (g x) = f x"
  shows "f (hp[p := g (hp ! p)] ! j) = f (hp ! j)"
proof (cases "p < length hp")
  case True
  then show ?thesis using assms by (cases "j = p") simp_all
next
  case False
  then have "length hp \<le> p" by simp
  then show ?thesis by (simp add: list_update_beyond)
qed

lemma linkChild_frame:
  assumes "linkChild T loc i = Inr loc'"
  shows "bookmarksById loc' = bookmarksById loc"
    and "bl_hierarchy loc' = bl_hierarchy loc"
    and "length (bl_heap loc') = length (bl_heap loc)"
    and "h_title (bl_heap loc' ! j) = h_title (bl_heap loc ! j)"
    and "h_parentId (bl_heap loc' ! j) = h_parentId (bl_heap loc ! j)"
    and "h_placeId (bl_heap loc' ! j) = h_placeId (bl_heap loc ! j)"
    and "h_id (bl_heap loc' ! j) = h_id (bl_heap loc ! j)"
  using assms
  by (auto simp: linkChild_def Let_def nth_update_field split: option.splits if_splits)

lemma linkChild_tags_mono:
  assumes "linkChild T loc i = Inr loc'" and "bl_tags loc k = Some ts"
  shows "\<exists>ts'. bl_tags loc' k = Some ts' \<and> set ts \<subseteq> set ts'"
  using assms
  by (auto simp: linkChild_def Let_def split: option.splits if_splits)

lemma linkChild_tag_added:
  assumes "linkChild T loc i = Inr loc'"
    and "isTagRoot (h_parentId (bl_heap loc ! i)) T"
  shows "\<exists>ts t p. bl_tags loc' (h_placeId (bl_heap loc ! i)) = Some ts
           \<and> h_parentId (bl_heap loc ! i) = Some t \<and> bookmarksById loc t = Some p
           \<and> h_title (bl_heap loc ! p) \<in> set ts"
  using assms
  by (auto simp: linkChild_def Let_def isTagRoot_def split: option.splits if_splits)


lemma linkChildren_frame:
  assumes "linkChildren T loc js = Inr loc'"
  shows "bookmarksById loc' = bookmarksById loc
       \<and> bl_hierarchy loc' = bl_hierarchy loc
       \<and> length (bl_heap loc') = length (bl_heap loc)
       \<and> (\<forall>j. h_title (bl_heap loc' ! j) = h_title (bl_heap loc ! j)
              \<and> h_parentId (bl_heap loc' ! j) = h_parentId (bl_heap loc ! j)
              \<and> h_placeId (bl_heap loc' ! j) = h_placeId (bl_heap loc ! j)
              \<and> h_id (bl_heap loc' ! j) = h_id (bl_heap loc ! j))"
  using assms
proof (induction js arbitrary: loc)
  case Nil
  then show ?case by simp
next
  case (Cons i js)
  then obtain loc1 where s1: "linkChild T loc i = Inr loc1"
    and s2: "linkChildren T loc1 js = Inr loc'"
    by (auto split: sum.splits)
  from Cons.IH [OF s2] linkChild_frame [OF s1] show ?case by simp
qed

lemma linkChildren_tags_mono:
  assumes "linkChildren T loc js = Inr loc'" and "bl_tags loc k = Some ts"
  shows "\<exists>ts'. bl_tags loc' k = Some ts' \<and> set ts \<subseteq> set ts'"
  using assms
proof (induction js arbitrary: loc ts)
  case Nil
  then show ?case by auto
next
  case (Cons i js)
  then obtain loc1 where s1: "linkChild T loc i = Inr loc1"
    and s2: "linkChildren T loc1 js = Inr loc'"
    by (auto split: sum.splits)
  from linkChild_tags_mono [OF s1 Cons.prems(2)] obtain ts1 where
    t1: "bl_tags loc1 k = Some ts1" "set ts \<subseteq> set ts1" by blast
  from Cons.IH [OF s2 t1(1)] t1(2) show ?case by blast
qed

lemma linkChildren_tag_added:
  assumes "linkChildren T loc js = Inr loc'"
    and "i \<in> set js"
    and "isTagRoot (h_parentId (bl_heap loc ! i)) T"
  shows "\<exists>ts t p. bl_tags loc' (h_placeId (bl_heap loc ! i)) = Some ts
           \<and> h_parentId (bl_heap loc ! i) = Some t \<and> bookmarksById loc t = Some p
           \<and> h_title (bl_heap loc ! p) \<in> set ts"
  using assms
proof (induction js arbitrary: loc)
  case Nil
  then show ?case by simp
next
  case (Cons j js)
  then obtain loc1 where s1: "linkChild T loc j = Inr loc1"
    and s2: "linkChildren T loc1 js = Inr loc'"
    by (auto split: sum.splits)
  note f1 = linkChild_frame [OF s1]
  show ?case
  proof (cases "i \<in> set js")
    case True
    have "isTagRoot (h_parentId (bl_heap loc1 ! i)) T"
      using Cons.prems(3) f1(5) by simp
    from Cons.IH [OF s2 True this] show ?thesis
      using f1 by simp
  next
    case False
    with Cons.prems(2) have "i = j" by simp
    with linkChild_tag_added [OF s1] Cons.prems(3) obtain ts t p where
      a: "bl_tags loc1 (h_placeId (bl_heap loc ! i)) = Some ts"
         "h_parentId (bl_heap loc ! i) = Some t" "bookmarksById loc t = Some p"
         "h_title (bl_heap loc ! p) \<in> set ts"
      by blast
    from linkChildren_tags_mono [OF s2 a(1)] a show ?thesis by blast
  qed
qed

lemma linkRoot_frame:
  assumes "linkRoot loc root = Inr loc'"
  shows "bookmarksById loc' = bookmarksById loc"
    and "bl_tags loc' = bl_tags loc"
    and "length (bl_heap loc') = length (bl_heap loc)"
    and "h_parentId (bl_heap loc' ! j) = h_parentId (bl_heap loc ! j)"
    and "h_placeId (bl_heap loc' ! j) = h_placeId (bl_heap loc ! j)"
    and "h_id (bl_heap loc' ! j) = h_id (bl_heap loc ! j)"
    and "h_kids (bl_heap loc' ! j) = h_kids (bl_heap loc ! j)"
  using assms
  by (auto simp: linkRoot_def nth_update_field split: option.splits)

lemma linkRoots_frame:
  assumes "linkRoots loc roots = Inr loc'"
  shows "bookmarksById loc' = bookmarksById loc
       \<and> bl_tags loc' = bl_tags loc
       \<and> length (bl_heap loc') = length (bl_heap loc)
       \<and> (\<forall>j. h_parentId (bl_heap loc' ! j) = h_parentId (bl_heap loc ! j)
              \<and> h_placeId (bl_heap loc' ! j) = h_placeId (bl_heap loc ! j)
              \<and> h_id (bl_heap loc' ! j) = h_id (bl_heap loc ! j)
              \<and> h_kids (bl_heap loc' ! j) = h_kids (bl_heap loc ! j))"
  using assms
proof (induction roots arbitrary: loc)
  case Nil
  then show ?case by simp
next
  case (Cons root roots)
  then obtain loc1 where s1: "linkRoot loc root = Inr loc1"
    and s2: "linkRoots loc1 roots = Inr loc'"
    by (auto split: sum.splits)
  from Cons.IH [OF s2] linkRoot_frame [OF s1] show ?case by simp
qed

lemma slurpBookmarksRows_heap:
  "bl_heap (foldl (slurpBookmarksRow ctx) loc rows) = bl_heap loc @ map (makeHierInfo ctx) rows"
  by (induction rows arbitrary: loc) (simp_all add: slurpBookmarksRow_def)

lemma slurpBookmarksRows_tags:
  "bl_tags (foldl (slurpBookmarksRow ctx) loc rows) = bl_tags loc"
  by (induction rows arbitrary: loc) (simp_all add: slurpBookmarksRow_def)

lemma slurpBookmarksRow_byId:
  "bookmarksById (slurpBookmarksRow ctx loc row)
     = (bookmarksById loc)(b_id row \<mapsto> length (bl_heap loc))"
  by (simp add: slurpBookmarksRow_def)

lemma slurpBookmarksRows_byId:
  assumes "bookmarksById (foldl (slurpBookmarksRow ctx) bookmarkLocals0 rows) t = Some p"
  shows "p < length rows \<and> b_id (rows ! p) = t"
  using assms
proof (induction rows arbitrary: p rule: rev_induct)
  case Nil
  then show ?case by (simp add: bookmarkLocals0_def)
next
  case (snoc row rows)
  have len: "length (bl_heap (foldl (slurpBookmarksRow ctx) bookmarkLocals0 rows)) = length rows"
    by (simp add: slurpBookmarksRows_heap bookmarkLocals0_def)
  show ?case
  proof (cases "b_id row = t")
    case True
    with snoc.prems len have "p = length rows" by (simp add: slurpBookmarksRow_byId)
    with True show ?thesis by simp
  next
    case False
    with snoc.prems have "bookmarksById (foldl (slurpBookmarksRow ctx) bookmarkLocals0 rows) t = Some p"
      by (simp add: slurpBookmarksRow_byId)
    from snoc.IH [OF this] show ?thesis by (simp add: nth_append)
  qed
qed

lemma set_forInEntries: "set (forInEntries obj) = set obj"
proof -
  have "snd ` set (List.map_filter (\<lambda>kv. map_option (\<lambda>n. (n, kv)) (arrayIndex (fst kv))) obj)
        = {kv \<in> set obj. arrayIndex (fst kv) \<noteq> None}"
    by (induction obj) (auto simp: List.map_filter_simps split: option.splits)
  then show ?thesis
    by (auto simp: forInEntries_def)
qed

lemma linkRoot_title:
  assumes "linkRoot loc root = Inr loc'" and "p < length (bl_heap loc)"
  shows "h_title (bl_heap loc' ! p) =
           (if bookmarksById loc (snd root) = Some p then Some (fst root)
            else h_title (bl_heap loc ! p))"
  using assms
  by (auto simp: linkRoot_def nth_list_update split: option.splits)

lemma linkRoots_title:
  assumes "linkRoots loc roots = Inr loc'"
    and "p < length (bl_heap loc)"
    and "set roots \<subseteq> S"
    and "(\<exists>root \<in> set roots. bookmarksById loc (snd root) = Some p)
         \<or> (\<exists>root \<in> S. bookmarksById loc (snd root) = Some p
                \<and> h_title (bl_heap loc ! p) = Some (fst root))"
  shows "\<exists>root \<in> S. bookmarksById loc (snd root) = Some p
           \<and> h_title (bl_heap loc' ! p) = Some (fst root)"
  using assms
proof (induction roots arbitrary: loc)
  case Nil
  then show ?case by simp
next
  case (Cons root roots)
  then obtain loc1 where s1: "linkRoot loc root = Inr loc1"
    and s2: "linkRoots loc1 roots = Inr loc'"
    by (auto split: sum.splits)
  note f1 = linkRoot_frame [OF s1]
  note t1 = linkRoot_title [OF s1 Cons.prems(2)]
  have len: "p < length (bl_heap loc1)" using f1 Cons.prems(2) by simp
  have sub: "set roots \<subseteq> S" and inS: "root \<in> S" using Cons.prems(3) by auto
  have "(\<exists>root \<in> set roots. bookmarksById loc1 (snd root) = Some p)
         \<or> (\<exists>root \<in> S. bookmarksById loc1 (snd root) = Some p
                \<and> h_title (bl_heap loc1 ! p) = Some (fst root))"
  proof (cases "bookmarksById loc (snd root) = Some p")
    case True
    with t1 inS f1(1) show ?thesis by auto
  next
    case False
    with Cons.prems(4) t1 f1(1) show ?thesis by auto
  qed
  from Cons.IH [OF s2 len sub this] f1(1) show ?case by simp
qed

text \<open>
  For every bookmark row whose parent is the Tags root, what is pushed onto the tag
  list of the bookmark's place id is the title of the parent. That parent is the Tags
  root bookmark, whose title has been replaced by the name of a root.
\<close>

lemma tag_is_title_of_parent:
  assumes "slurpBookmarks ctx (Scan rows None) = Inr ctx'"
    and "i < length rows"
    and "isTagRoot (b_parent (rows ! i)) (objGet (bookmarkRoots ctx) ''tags'')"
  shows "\<exists>tags p name. tagsByPlaceId ctx' (b_fk (rows ! i)) = Some tags
           \<and> p < length rows \<and> b_parent (rows ! i) = Some (b_id (rows ! p))
           \<and> h_title (heap ctx' ! p) \<in> set tags
           \<and> h_title (heap ctx' ! p) = Some name \<and> name \<in> fst ` set (bookmarkRoots ctx)"
proof -
  let ?loc1 = "foldl (slurpBookmarksRow ctx) bookmarkLocals0 rows"
  let ?T = "objGet (bookmarkRoots ctx) ''tags''"
  from assms(1) obtain loc2 loc3 where
    r: "linkRoots ?loc1 (forInEntries (bookmarkRoots ctx)) = Inr loc2"
    and c: "linkChildren ?T loc2 [0 ..< length (bl_heap loc2)] = Inr loc3"
    and ctx': "tagsByPlaceId ctx' = bl_tags loc3" "heap ctx' = bl_heap loc3"
    by (auto simp: slurpBookmarks_def slurpBookmarksLocals_def Let_def split: sum.splits)
  have heap1: "bl_heap ?loc1 = map (makeHierInfo ctx) rows"
    by (simp add: slurpBookmarksRows_heap bookmarkLocals0_def)
  note f2 = linkRoots_frame [OF r]
  note f3 = linkChildren_frame [OF c]
  have len2: "length (bl_heap loc2) = length rows" using f2 heap1 by simp
  have par2: "h_parentId (bl_heap loc2 ! i) = b_parent (rows ! i)"
    and pl2: "h_placeId (bl_heap loc2 ! i) = b_fk (rows ! i)"
    using f2 heap1 assms(2) by (simp_all add: makeHierInfo_def)
  have "i \<in> set [0 ..< length (bl_heap loc2)]" using assms(2) len2 by simp
  from linkChildren_tag_added [OF c this] assms(3) par2 pl2 obtain ts t p where
    a: "bl_tags loc3 (b_fk (rows ! i)) = Some ts" "b_parent (rows ! i) = Some t"
       "bookmarksById loc2 t = Some p" "h_title (bl_heap loc2 ! p) \<in> set ts"
    by auto
  from a(3) f2 have "bookmarksById ?loc1 t = Some p" by simp
  from slurpBookmarksRows_byId [OF this] have p: "p < length rows" "b_id (rows ! p) = t"
    by simp_all
  from a(4) f3 have in3: "h_title (bl_heap loc3 ! p) \<in> set ts" by simp
  from assms(3) a(2) have "objGet (bookmarkRoots ctx) ''tags'' = Some t"
    by (simp add: isTagRoot_def split: option.splits)
  then have "(''tags'', t) \<in> set (forInEntries (bookmarkRoots ctx))"
    by (simp add: objGet_def set_forInEntries map_of_SomeD)
  with \<open>bookmarksById ?loc1 t = Some p\<close>
  have "\<exists>root \<in> set (forInEntries (bookmarkRoots ctx)). bookmarksById ?loc1 (snd root) = Some p"
    by force
  with linkRoots_title [OF r, of p "set (bookmarkRoots ctx)"] p(1) heap1
  obtain root where root: "root \<in> set (bookmarkRoots ctx)"
    "h_title (bl_heap loc2 ! p) = Some (fst root)"
    by (auto simp: set_forInEntries)
  with f3 have "h_title (bl_heap loc3 ! p) = Some (fst root)" by simp
  with in3 a p ctx' root(1) show ?thesis by force
qed

lemma linkChild_tags_named:
  assumes "linkChild T loc i = Inr loc'"
    and "\<forall>k ts x. bl_tags loc k = Some ts \<longrightarrow> x \<in> set ts \<longrightarrow> P x"
    and "\<forall>t p. T = Some t \<longrightarrow> bookmarksById loc t = Some p \<longrightarrow> P (h_title (bl_heap loc ! p))"
  shows "\<forall>k ts x. bl_tags loc' k = Some ts \<longrightarrow> x \<in> set ts \<longrightarrow> P x"
  using assms
  by (auto simp: linkChild_def Let_def isTagRoot_def split: option.splits if_splits)

lemma linkChildren_tags_named:
  assumes "linkChildren T loc js = Inr loc'"
    and "\<forall>k ts x. bl_tags loc k = Some ts \<longrightarrow> x \<in> set ts \<longrightarrow> P x"
    and "\<forall>t p. T = Some t \<longrightarrow> bookmarksById loc t = Some p \<longrightarrow> P (h_title (bl_heap loc ! p))"
  shows "\<forall>k ts x. bl_tags loc' k = Some ts \<longrightarrow> x \<in> set ts \<longrightarrow> P x"
  using assms
proof (induction js arbitrary: loc)
  case Nil
  then show ?case by simp
next
  case (Cons i js)
  then obtain loc1 where s1: "linkChild T loc i = Inr loc1"
    and s2: "linkChildren T loc1 js = Inr loc'"
    by (auto split: sum.splits)
  note f1 = linkChild_frame [OF s1]
  have ok1: "\<forall>t p. T = Some t \<longrightarrow> bookmarksById loc1 t = Some p
               \<longrightarrow> P (h_title (bl_heap loc1 ! p))"
    using Cons.prems(3) f1(1,4) by simp
  from Cons.IH [OF s2 linkChild_tags_named [OF s1 Cons.prems(2,3)] ok1] show ?case .
qed

text \<open>Every tag that the hierarchy builder records, for any place, is the name of a root.\<close>

lemma every_tag_is_a_root_name:
  assumes "slurpBookmarks ctx (Scan rows None) = Inr ctx'"
    and "tagsByPlaceId ctx' k = Some tags" and "tag \<in> set tags"
  shows "\<exists>name. tag = Some name \<and> name \<in> fst ` set (bookmarkRoots ctx)"
proof -
  let ?loc1 = "foldl (slurpBookmarksRow ctx) bookmarkLocals0 rows"
  let ?T = "objGet (bookmarkRoots ctx) ''tags''"
  let ?P = "\<lambda>x. \<exists>name. x = Some name \<and> name \<in> fst ` set (bookmarkRoots ctx)"
  from assms(1) obtain loc2 loc3 where
    r: "linkRoots ?loc1 (forInEntries (bookmarkRoots ctx)) = Inr loc2"
    and c: "linkChildren ?T loc2 [0 ..< length (bl_heap loc2)] = Inr loc3"
    and ctx': "tagsByPlaceId ctx' = bl_tags loc3"
    by (auto simp: slurpBookmarks_def slurpBookmarksLocals_def Let_def split: sum.splits)
  have heap1: "bl_heap ?loc1 = map (makeHierInfo ctx) rows"
    by (simp add: slurpBookmarksRows_heap bookmarkLocals0_def)
  note f2 = linkRoots_frame [OF r]
  have none: "\<forall>k ts x. bl_tags loc2 k = Some ts \<longrightarrow> x \<in> set ts \<longrightarrow> ?P x"
    using f2 by (simp add: slurpBookmarksRows_tags bookmarkLocals0_def)
  have ok: "\<forall>t p. ?T = Some t \<longrightarrow> bookmarksById loc2 t = Some p
              \<longrightarrow> ?P (h_title (bl_heap loc2 ! p))"
  proof (intro allI impI)
    fix t p
    assume t: "?T = Some t" and p: "bookmarksById loc2 t = Some p"
    from p f2 have p1: "bookmarksById ?loc1 t = Some p" by simp
    from slurpBookmarksRows_byId [OF p1] heap1 have len: "p < length (bl_heap ?loc1)" by simp
    from t have "(''tags'', t) \<in> set (forInEntries (bookmarkRoots ctx))"
      by (simp add: objGet_def set_forInEntries map_of_SomeD)
    with p1 have "\<exists>root \<in> set (forInEntries (bookmarkRoots ctx)).
                    bookmarksById ?loc1 (snd root) = Some p"
      by force
    with linkRoots_title [OF r len, of "set (bookmarkRoots ctx)"]
    obtain root where "root \<in> set (bookmarkRoots ctx)"
      "h_title (bl_heap loc2 ! p) = Some (fst root)"
      by (auto simp: set_forInEntries)
    then show "?P (h_title (bl_heap loc2 ! p))" by force
  qed
  from linkChildren_tags_named [OF c none ok] assms(2,3) ctx' show ?thesis by simp
qed

text \<open>
  A Tags root with folder id 4, and one bookmark under it, titled \<open>work\<close> and linked to
  the place with id 1.
\<close>

definition tagRootsContext :: ctxt where
  "tagRootsContext = emptyContext\<lparr>bookmarkRoots := [(''tags'', 4)]\<rparr>"

definition tagsRootRow :: bookmarkRow where
  "tagsRootRow =
     \<lparr> b_id = 4, b_fk = None, b_parent = Some 1, b_position = Some 3, b_title = Some ''Tags'',
       b_keyword = None, b_dateAdded = None, b_lastModified = None, b_guid = None \<rparr>"

definition workRow :: bookmarkRow where
  "workRow =
     \<lparr> b_id = 10, b_fk = Some 1, b_parent = Some 4, b_position = Some 0,
       b_title = Some ''work'', b_keyword = None, b_dateAdded = None, b_lastModified = None,
       b_guid = None \<rparr>"

lemmas bookmark_defs =
  slurpBookmarks_def slurpBookmarksLocals_def slurpBookmarksRow_def bookmarkLocals0_def
  makeHierInfo_def forInEntries_def List.map_filter_def arrayIndex_def isDigit_def
  linkRoot_def linkChild_def isTagRoot_def objGet_def emptyContext_def

text \<open>
  C6. A bookmark under the Tags root is meant to give its own title as a tag to its own
  place. For the bookmark titled \<open>work\<close> the one tag recorded, under its place id and no
  other, is \<open>tags\<close>: the title of its parent, the Tags root, after the root's name has
  replaced it.
\<close>

theorem tag_is_not_own_title:
  "(case slurpBookmarks tagRootsContext (Scan [tagsRootRow, workRow] None) of
      Inl e \<Rightarrow> None
    | Inr ctx \<Rightarrow> Some (tagsByPlaceId ctx (b_fk workRow), dom (tagsByPlaceId ctx)))
     = Some (Some [Some ''tags''], {b_fk workRow})
   \<and> b_title workRow = Some ''work''
   \<and> isTagRoot (b_parent workRow) (objGet (bookmarkRoots tagRootsContext) ''tags'')"
  by (simp add: bookmark_defs tagRootsContext_def tagsRootRow_def workRow_def Let_def
      upt_rec [of 0])

section \<open>The namespaces written by the conversion\<close>

text \<open>The namespace tag of a key: its first character.\<close>

definition namespaceOf :: "put \<Rightarrow> string" where
  "namespaceOf p = take 1 (fst p)"

text \<open>
  All the records of a batch are of the namespaces that the place pass puts: \<open>I\<close>, \<open>H\<close>,
  \<open>h\<close>, \<open>A\<close> and \<open>a\<close>.
\<close>

definition placeNamespaces :: "put list \<Rightarrow> bool" where
  "placeNamespaces puts =
     list_all (\<lambda>p. namespaceOf p \<in> {''I'', ''H'', ''h'', ''A'', ''a''}) puts"

lemma placeNamespaces_append [simp]:
  "placeNamespaces (xs @ ys) = (placeNamespaces xs \<and> placeNamespaces ys)"
  by (simp add: placeNamespaces_def)

lemma placeNamespaces_Nil [simp]: "placeNamespaces []"
  by (simp add: placeNamespaces_def)

lemma placeNamespaces_Cons [simp]:
  "placeNamespaces (p # ps)
     = (namespaceOf p \<in> {''I'', ''H'', ''h'', ''A'', ''a''} \<and> placeNamespaces ps)"
  by (simp add: placeNamespaces_def)

lemma literal_namespace [simp]: "namespaceOf (c # rest, v) = [c]"
  by (simp add: namespaceOf_def)

lemma emitAwesome_namespace [simp]:
  "namespaceOf (emitAwesome row parsedUrl magic term) = ''A''"
  by (simp add: emitAwesome_def)

lemma placeNamespaces_emitAwesome [simp]:
  "placeNamespaces (map (\<lambda>magic. emitAwesome row parsedUrl (f magic) term) magics)"
  by (induction magics) simp_all

lemma visitPuts_namespaces [simp]:
  "placeNamespaces (concat (map (visitPuts row) visits))"
  by (induction visits) (simp_all add: visitPuts_def)












section \<open>Properties of writing the bookmarks\<close>



text \<open>
  The tree under the object \<open>i\<close> is at most \<open>n\<close> levels deep, the level of \<open>i\<close>
  included: traversing it nests at most \<open>n\<close> calls.
\<close>

fun depthBounded :: "nat \<Rightarrow> hierInfo list \<Rightarrow> nat \<Rightarrow> bool" where
  "depthBounded 0 hp i = False"
| "depthBounded (Suc n) hp i =
     (i < length hp
      \<and> list_all (depthBounded n hp) (case h_kids (hp ! i) of None \<Rightarrow> [] | Some kids \<Rightarrow> kids))"

text \<open>The records that \<open>traverseBookmark\<close> puts for a list of objects, each with its depth.\<close>

definition visitPutsOf :: "hierInfo list \<Rightarrow> (nat \<times> nat) list \<Rightarrow> put list" where
  "visitPutsOf hp visits = concat (map (\<lambda>v. bookmarkPuts (fst v) (hp ! snd v)) visits)"

text \<open>The object \<open>i\<close> is in no list \<open>kids\<close>.\<close>

definition noKid :: "hierInfo list \<Rightarrow> nat \<Rightarrow> bool" where
  "noKid hp i = (\<forall>j < length hp. \<forall>kids. h_kids (hp ! j) = Some kids \<longrightarrow> i \<notin> set kids)"


lemma traverse_returns:
  "depthBounded limit hp i \<Longrightarrow> \<exists>puts. traverseBookmark limit hp d i = Inr puts"
  "list_all (depthBounded limit hp) kids \<Longrightarrow> \<exists>puts. traverseKids limit hp d kids = Inr puts"
proof (induction limit hp d i and limit hp d kids rule: traverseBookmark_traverseKids.induct)
  case (1 hp depth i)
  then show ?case by simp
next
  case (2 limit hp depth i)
  then show ?case by auto
next
  case (3 limit hp depth)
  then show ?case by simp
next
  case (4 limit hp depth k kids)
  then show ?case by auto
qed

lemma traverse_avoids:
  "traverseBookmark limit hp d j = Inr puts \<Longrightarrow> j \<noteq> i \<Longrightarrow> noKid hp i
     \<Longrightarrow> \<exists>visits. puts = visitPutsOf hp visits \<and> i \<notin> snd ` set visits"
  "traverseKids limit hp d kids = Inr puts \<Longrightarrow> i \<notin> set kids \<Longrightarrow> noKid hp i
     \<Longrightarrow> \<exists>visits. puts = visitPutsOf hp visits \<and> i \<notin> snd ` set visits"
proof (induction limit hp d j and limit hp d kids arbitrary: puts and puts
       rule: traverseBookmark_traverseKids.induct)
  case (1 hp depth j)
  then show ?case by simp
next
  case (2 limit hp depth j)
  let ?kids = "case h_kids (hp ! j) of None \<Rightarrow> [] | Some kids \<Rightarrow> kids"
  from "2.prems"(1) obtain kputs where
    lt: "j < length hp"
    and ks: "traverseKids limit hp (depth + 1) ?kids = Inr kputs"
    and puts: "puts = bookmarkPuts depth (hp ! j) @ kputs"
    by (auto split: if_splits sum.splits)
  have "i \<notin> set ?kids"
    using "2.prems"(3) lt by (auto simp: noKid_def split: option.splits)
  from "2.IH" [OF lt ks this "2.prems"(3)] obtain visits where
    v: "kputs = visitPutsOf hp visits" "i \<notin> snd ` set visits" by blast
  have "puts = visitPutsOf hp ((depth, j) # visits)"
    using puts v(1) by (simp add: visitPutsOf_def)
  moreover have "i \<notin> snd ` set ((depth, j) # visits)"
    using v(2) "2.prems"(2) by auto
  ultimately show ?case by blast
next
  case (3 limit hp depth)
  have "[] = visitPutsOf hp []" by (simp add: visitPutsOf_def)
  with 3 show ?case by force
next
  case (4 limit hp depth k kids)
  from "4.prems"(1) obtain p1 p2 where
    a: "traverseBookmark limit hp depth k = Inr p1"
    and b: "traverseKids limit hp depth kids = Inr p2"
    and puts: "puts = p1 @ p2"
    by (auto split: sum.splits)
  from "4.prems"(2) have ne: "k \<noteq> i" "i \<notin> set kids" by auto
  from "4.IH"(1) [OF a ne(1) "4.prems"(3)] obtain v1 where
    v1: "p1 = visitPutsOf hp v1" "i \<notin> snd ` set v1" by blast
  from "4.IH"(2) [OF a b ne(2) "4.prems"(3)] obtain v2 where
    v2: "p2 = visitPutsOf hp v2" "i \<notin> snd ` set v2" by blast
  have "puts = visitPutsOf hp (v1 @ v2)"
    using puts v1(1) v2(1) by (simp add: visitPutsOf_def)
  moreover have "i \<notin> snd ` set (v1 @ v2)" using v1(2) v2(2) by auto
  ultimately show ?case by blast
qed



lemma traverseRoots_returns:
  assumes "list_all (\<lambda>root. fst root = ''tags'' \<or> depthBounded limit hp (snd root)) roots"
  shows "\<exists>puts. traverseRoots limit hp roots = Inr puts"
  using assms
proof (induction roots)
  case Nil
  then show ?case by simp
next
  case (Cons r roots)
  then obtain p2 where b: "traverseRoots limit hp roots = Inr p2" by auto
  show ?case
  proof (cases "fst r = ''tags''")
    case True
    with b show ?thesis by simp
  next
    case False
    with Cons.prems have "depthBounded limit hp (snd r)" by simp
    from traverse_returns(1) [OF this] obtain p1 where
      "traverseBookmark limit hp 0 (snd r) = Inr p1" by blast
    with b False show ?thesis by simp
  qed
qed

lemma traverseRoots_avoids:
  assumes "traverseRoots limit hp roots = Inr puts"
    and "\<forall>root \<in> set roots. fst root \<noteq> ''tags'' \<longrightarrow> snd root \<noteq> i"
    and "noKid hp i"
  shows "\<exists>visits. puts = visitPutsOf hp visits \<and> i \<notin> snd ` set visits"
  using assms(1,2)
proof (induction roots arbitrary: puts)
  case Nil
  have "[] = visitPutsOf hp []" by (simp add: visitPutsOf_def)
  with Nil show ?case by force
next
  case (Cons r roots)
  show ?case
  proof (cases "fst r = ''tags''")
    case True
    with Cons.prems have "traverseRoots limit hp roots = Inr puts"
      "\<forall>root \<in> set roots. fst root \<noteq> ''tags'' \<longrightarrow> snd root \<noteq> i"
      by auto
    then show ?thesis by (rule Cons.IH)
  next
    case False
    with Cons.prems(1) obtain p1 p2 where
      a: "traverseBookmark limit hp 0 (snd r) = Inr p1"
      and b: "traverseRoots limit hp roots = Inr p2"
      and puts: "puts = p1 @ p2"
      by (auto split: sum.splits)
    from False Cons.prems(2) have "snd r \<noteq> i" by simp
    from traverse_avoids(1) [OF a this assms(3)] obtain v1 where
      v1: "p1 = visitPutsOf hp v1" "i \<notin> snd ` set v1" by blast
    from Cons.prems(2) have "\<forall>root \<in> set roots. fst root \<noteq> ''tags'' \<longrightarrow> snd root \<noteq> i"
      by simp
    from Cons.IH [OF b this] obtain v2 where
      v2: "p2 = visitPutsOf hp v2" "i \<notin> snd ` set v2" by blast
    have "puts = visitPutsOf hp (v1 @ v2)"
      using puts v1(1) v2(1) by (simp add: visitPutsOf_def)
    moreover have "i \<notin> snd ` set (v1 @ v2)" using v1(2) v2(2) by auto
    ultimately show ?thesis by blast
  qed
qed

text \<open>Every index in a list \<open>kids\<close> is that of a bookmark whose parent is not the Tags root.\<close>

definition kidsUntagged :: "int option \<Rightarrow> hierInfo list \<Rightarrow> bool" where
  "kidsUntagged T hp =
     (\<forall>j < length hp. \<forall>kids. h_kids (hp ! j) = Some kids
        \<longrightarrow> (\<forall>k \<in> set kids. \<not> isTagRoot (h_parentId (hp ! k)) T))"

lemma linkChild_kidsUntagged:
  assumes "linkChild T loc i = Inr loc'" and "kidsUntagged T (bl_heap loc)"
  shows "kidsUntagged T (bl_heap loc')"
proof (cases "isTagRoot (h_parentId (bl_heap loc ! i)) T")
  case True
  with assms(1) have "bl_heap loc' = bl_heap loc"
    by (auto simp: linkChild_def Let_def split: option.splits)
  with assms(2) show ?thesis by simp
next
  case False
  note untagged = False
  show ?thesis
  proof (cases "Option.bind (h_parentId (bl_heap loc ! i)) (bookmarksById loc)")
    case None
    with assms(1) untagged have "bl_heap loc' = bl_heap loc"
      by (auto simp: linkChild_def Let_def)
    with assms(2) show ?thesis by simp
  next
    case (Some p)
    let ?hp = "bl_heap loc"
    let ?ks = "case h_kids (?hp ! p) of None \<Rightarrow> [] | Some ks \<Rightarrow> ks"
    from assms(1) untagged Some have hp': "bl_heap loc' = ?hp[p := (?hp ! p)\<lparr>h_kids := Some (?ks @ [i])\<rparr>]"
      by (auto simp: linkChild_def Let_def)
    have par: "\<And>k. h_parentId (bl_heap loc' ! k) = h_parentId (?hp ! k)"
      unfolding hp' by (rule nth_update_field) simp
    show ?thesis
      unfolding kidsUntagged_def
    proof (intro allI impI ballI)
      fix j kids k
      assume j: "j < length (bl_heap loc')"
        and kids: "h_kids (bl_heap loc' ! j) = Some kids"
        and k: "k \<in> set kids"
      show "\<not> isTagRoot (h_parentId (bl_heap loc' ! k)) T"
      proof (cases "j = p")
        case True
        with j kids hp' have "kids = ?ks @ [i]" by simp
        with k have "k = i \<or> k \<in> set ?ks" by auto
        then show ?thesis
        proof
          assume "k = i"
          with untagged par show ?thesis by simp
        next
          assume "k \<in> set ?ks"
          then obtain ks where "h_kids (?hp ! p) = Some ks" "k \<in> set ks"
            by (cases "h_kids (?hp ! p)") auto
          with assms(2) j True hp' par show ?thesis
            by (auto simp: kidsUntagged_def)
        qed
      next
        case False
        with j kids hp' have "j < length ?hp" "h_kids (?hp ! j) = Some kids" by simp_all
        with assms(2) k par show ?thesis by (auto simp: kidsUntagged_def)
      qed
    qed
  qed
qed

lemma linkChildren_kidsUntagged:
  assumes "linkChildren T loc js = Inr loc'" and "kidsUntagged T (bl_heap loc)"
  shows "kidsUntagged T (bl_heap loc')"
  using assms
proof (induction js arbitrary: loc)
  case Nil
  then show ?case by simp
next
  case (Cons i js)
  then obtain loc1 where s1: "linkChild T loc i = Inr loc1"
    and s2: "linkChildren T loc1 js = Inr loc'"
    by (auto split: sum.splits)
  from Cons.IH [OF s2 linkChild_kidsUntagged [OF s1 Cons.prems(2)]] show ?case .
qed

text \<open>
  The call stack has room for the tree under every root that is traversed.
\<close>

definition stackSuffices :: "nat \<Rightarrow> ctxt \<Rightarrow> bool" where
  "stackSuffices limit ctx =
     list_all (\<lambda>root. fst root = ''tags'' \<or> depthBounded limit (heap ctx) (snd root))
       (bookmarkHierarchy ctx)"

lemma writeBookmarks_returns:
  assumes "stackSuffices limit ctx"
  shows "\<exists>batch. writeBookmarksBatch limit ctx = Inr batch
           \<and> writeBookmarks limit ctx = (ctx\<lparr>ldb := ldb ctx @ [batch]\<rparr>, TypeError)"
proof -
  have "list_all (\<lambda>root. fst root = ''tags'' \<or> depthBounded limit (heap ctx) (snd root))
          (forInEntries (bookmarkHierarchy ctx))"
    using assms by (simp add: stackSuffices_def list_all_iff set_forInEntries)
  from traverseRoots_returns [OF this] show ?thesis
    by (auto simp: writeBookmarks_def writeBookmarksBatch_def)
qed

text \<open>
  C9. A bookmark whose parent is the Tags root, from which a tag is derived, is in no
  list \<open>kids\<close>: it is the structural child of no bookmark. When it is not itself the
  bookmark of a root, which the traversal starts from (of a root other than \<open>tags\<close>, to
  be exact), \<open>writeBookmarks\<close> writes no record for it: whatever stack there is, either
  nothing is handed to the store, or one batch that consists of the records of a list
  of visited objects which does not contain it.
\<close>

theorem tagged_bookmark_outside_tree:
  assumes "slurpBookmarks ctx (Scan rows None) = Inr ctx'"
    and "i < length rows"
    and "isTagRoot (b_parent (rows ! i)) (objGet (bookmarkRoots ctx) ''tags'')"
  shows "noKid (heap ctx') i
       \<and> ((\<forall>root \<in> set (bookmarkHierarchy ctx'). fst root \<noteq> ''tags'' \<longrightarrow> snd root \<noteq> i)
            \<longrightarrow> ldb (fst (writeBookmarks limit ctx')) = ldb ctx'
              \<or> (\<exists>visits. ldb (fst (writeBookmarks limit ctx'))
                             = ldb ctx' @ [visitPutsOf (heap ctx') visits]
                           \<and> i \<notin> snd ` set visits))"
proof -
  let ?loc1 = "foldl (slurpBookmarksRow ctx) bookmarkLocals0 rows"
  let ?T = "objGet (bookmarkRoots ctx) ''tags''"
  from assms(1) obtain loc2 loc3 where
    r: "linkRoots ?loc1 (forInEntries (bookmarkRoots ctx)) = Inr loc2"
    and c: "linkChildren ?T loc2 [0 ..< length (bl_heap loc2)] = Inr loc3"
    and ctx': "heap ctx' = bl_heap loc3"
    by (auto simp: slurpBookmarks_def slurpBookmarksLocals_def Let_def split: sum.splits)
  have heap1: "bl_heap ?loc1 = map (makeHierInfo ctx) rows"
    by (simp add: slurpBookmarksRows_heap bookmarkLocals0_def)
  note f2 = linkRoots_frame [OF r]
  note f3 = linkChildren_frame [OF c]
  have len2: "length (bl_heap loc2) = length rows" using f2 heap1 by simp
  have "kidsUntagged ?T (bl_heap loc2)"
    using f2 heap1 by (simp add: kidsUntagged_def makeHierInfo_def)
  from linkChildren_kidsUntagged [OF c this] have inv: "kidsUntagged ?T (bl_heap loc3)" .
  have "h_parentId (bl_heap loc3 ! i) = b_parent (rows ! i)"
    using f3 f2 heap1 assms(2) by (simp add: makeHierInfo_def)
  with assms(3) have tagged: "isTagRoot (h_parentId (bl_heap loc3 ! i)) ?T" by simp
  from inv tagged have nk: "noKid (heap ctx') i"
    unfolding noKid_def kidsUntagged_def ctx' by blast
  have "ldb (fst (writeBookmarks limit ctx')) = ldb ctx'
        \<or> (\<exists>visits. ldb (fst (writeBookmarks limit ctx'))
                       = ldb ctx' @ [visitPutsOf (heap ctx') visits]
                     \<and> i \<notin> snd ` set visits)"
    if notRoot: "\<forall>root \<in> set (bookmarkHierarchy ctx'). fst root \<noteq> ''tags'' \<longrightarrow> snd root \<noteq> i"
  proof (cases "writeBookmarksBatch limit ctx'")
    case (Inl e)
    then show ?thesis by (simp add: writeBookmarks_def)
  next
    case (Inr puts)
    then have "traverseRoots limit (heap ctx') (forInEntries (bookmarkHierarchy ctx')) = Inr puts"
      by (simp add: writeBookmarksBatch_def)
    from traverseRoots_avoids [OF this _ nk] notRoot obtain visits where
      "puts = visitPutsOf (heap ctx') visits" "i \<notin> snd ` set visits"
      by (auto simp: set_forInEntries)
    with Inr show ?thesis by (auto simp: writeBookmarks_def)
  qed
  with nk show ?thesis by blast
qed










text \<open>
  The roots \<open>menu\<close> (folder 2) and \<open>tags\<close> (folder 4); the bookmark 3 in the menu, linked
  to the place 1 of \<open>examplePlace\<close>; the bookmark 10 under the Tags root.
\<close>

definition menuRow :: bookmarkRow where
  "menuRow =
     \<lparr> b_id = 2, b_fk = None, b_parent = Some 1, b_position = Some 0,
       b_title = Some ''Bookmarks Menu'', b_keyword = None, b_dateAdded = None,
       b_lastModified = None, b_guid = None \<rparr>"

definition exampleBookmarkRow :: bookmarkRow where
  "exampleBookmarkRow =
     \<lparr> b_id = 3, b_fk = Some 1, b_parent = Some 2, b_position = Some 0,
       b_title = Some ''Example'', b_keyword = None, b_dateAdded = None,
       b_lastModified = None, b_guid = None \<rparr>"

definition bookmarkRows :: "bookmarkRow list" where
  "bookmarkRows = [menuRow, tagsRootRow, exampleBookmarkRow, workRow]"

definition twoRootsContext :: ctxt where
  "twoRootsContext = emptyContext\<lparr>bookmarkRoots := [(''menu'', 2), (''tags'', 4)]\<rparr>"


lemma bookmarkRows_slurped:
  "(case slurpBookmarks twoRootsContext (Scan bookmarkRows None) of
      Inl e \<Rightarrow> None
    | Inr ctx \<Rightarrow> Some (bookmarkHierarchy ctx, map h_kids (heap ctx),
                        map (\<lambda>b. (h_id b, h_parentId b, h_url b)) (heap ctx)))
   = Some ([(''menu'', 0), (''tags'', 1)], [Some [2], None, None, None],
           [(2, Some 1, None), (4, Some 1, None), (3, Some 2, None), (10, Some 4, None)])"
  by (simp add: bookmark_defs twoRootsContext_def bookmarkRows_def menuRow_def tagsRootRow_def
      exampleBookmarkRow_def workRow_def Let_def upt_rec [of 0] upt_rec [of 1] upt_rec [of 2]
      upt_rec [of 3])



lemma bookmarkRows_context:
  obtains ctx where "slurpBookmarks twoRootsContext (Scan bookmarkRows None) = Inr ctx"
    and "bookmarkHierarchy ctx = [(''menu'', 0), (''tags'', 1)]"
    and "map h_kids (heap ctx) = [Some [2], None, None, None]"
    and "map (\<lambda>b. (h_id b, h_parentId b, h_url b)) (heap ctx)
         = [(2, Some 1, None), (4, Some 1, None), (3, Some 2, None), (10, Some 4, None)]"
  using bookmarkRows_slurped
  by (cases "slurpBookmarks twoRootsContext (Scan bookmarkRows None)") auto

lemma bookmarkRows_context_facts:
  assumes "map h_kids (heap ctx) = [Some [2], None, None, None]"
  shows "length (heap ctx) = 4"
    and "h_kids (heap ctx ! 0) = Some [2]"
    and "h_kids (heap ctx ! 2) = None"
    and "h_kids (heap ctx ! 1) = None"
    and "h_kids (heap ctx ! 3) = None"
proof -
  from assms have len: "length (heap ctx) = 4"
    using length_map [of h_kids "heap ctx"] by simp
  then show "length (heap ctx) = 4" .
  have nth: "\<And>n. n < 4 \<Longrightarrow> h_kids (heap ctx ! n) = [Some [2], None, None, None] ! n"
    using assms len nth_map [of _ "heap ctx" h_kids] by metis
  from nth [of 0] show "h_kids (heap ctx ! 0) = Some [2]" by simp
  from nth [of 2] show "h_kids (heap ctx ! 2) = None" by simp
  from nth [of 1] show "h_kids (heap ctx ! 1) = None" by simp
  from nth [of 3] show "h_kids (heap ctx ! 3) = None" by simp
qed

lemma bookmarkRows_stack:
  assumes "bookmarkHierarchy ctx = [(''menu'', 0), (''tags'', 1)]"
    and "map h_kids (heap ctx) = [Some [2], None, None, None]"
  shows "stackSuffices 2 ctx"
  using assms(1) bookmarkRows_context_facts [OF assms(2)]
  by (simp add: stackSuffices_def numeral_2_eq_2)



text \<open>C9 at the bookmark 10, whose parent is the Tags root and which is not a root.\<close>

theorem tagged_bookmark_outside_tree_witness:
  "\<exists>ctx visits. slurpBookmarks twoRootsContext (Scan bookmarkRows None) = Inr ctx
      \<and> isTagRoot (b_parent (bookmarkRows ! 3)) (objGet (bookmarkRoots twoRootsContext) ''tags'')
      \<and> noKid (heap ctx) 3
      \<and> ldb (fst (writeBookmarks 2 ctx)) = ldb ctx @ [visitPutsOf (heap ctx) visits]
      \<and> 3 \<notin> snd ` set visits"
proof -
  obtain ctx where e: "slurpBookmarks twoRootsContext (Scan bookmarkRows None) = Inr ctx"
    and h: "bookmarkHierarchy ctx = [(''menu'', 0), (''tags'', 1)]"
    and k: "map h_kids (heap ctx) = [Some [2], None, None, None]"
    by (rule bookmarkRows_context)
  have i: "3 < length bookmarkRows" by (simp add: bookmarkRows_def)
  have t: "isTagRoot (b_parent (bookmarkRows ! 3)) (objGet (bookmarkRoots twoRootsContext) ''tags'')"
    by (simp add: bookmarkRows_def workRow_def isTagRoot_def objGet_def twoRootsContext_def)
  have notRoot: "\<forall>root \<in> set (bookmarkHierarchy ctx). fst root \<noteq> ''tags'' \<longrightarrow> snd root \<noteq> 3"
    using h by simp
  from writeBookmarks_returns [OF bookmarkRows_stack [OF h k]]
  have "ldb (fst (writeBookmarks 2 ctx)) \<noteq> ldb ctx" by auto
  with tagged_bookmark_outside_tree [OF e i t, of 2] notRoot e t show ?thesis by blast
qed

end
